theory Spec2Isabelle
  imports Main
begin

section \<open>Python strings\<close>

text \<open>
  A Python \<open>str\<close> is modelled as a \<open>string\<close>: a list of characters, each a code point
  below 256. A \<open>bytes\<close> value is a list of characters too, each a byte.
\<close>

type_synonym bytes = "char list"

text \<open>\<open>str.isspace\<close> on the code points below 256: what \<open>str.split()\<close> splits on.\<close>

definition is_space :: "char \<Rightarrow> bool" where
  "is_space c = ((of_char c :: nat) \<in> set [9, 10, 11, 12, 13, 28, 29, 30, 31, 32, 133, 160])"

text \<open>\<open>s.replace(old, new)\<close> for a pattern \<open>old\<close> of one character.\<close>

definition replace_char :: "char \<Rightarrow> string \<Rightarrow> string \<Rightarrow> string" where
  "replace_char old new s = concat (map (\<lambda>c. if c = old then new else [c]) s)"

text \<open>
  The scanning loop of \<open>str.split()\<close>: \<open>cur\<close> holds the word being read, reversed;
  a delimiter ends it, and empty words are not produced.
\<close>

fun split_acc :: "(char \<Rightarrow> bool) \<Rightarrow> string \<Rightarrow> string \<Rightarrow> string list" where
  "split_acc d cur [] = (if cur = [] then [] else [rev cur])"
| "split_acc d cur (c # cs) =
     (if d c then (if cur = [] then split_acc d [] cs else rev cur # split_acc d [] cs)
      else split_acc d (c # cur) cs)"

definition split_ws :: "string \<Rightarrow> string list" where
  "split_ws s = split_acc is_space [] s"

text \<open>\<open>word.strip(chars)\<close>: drops the characters of \<open>chars\<close> at both ends.\<close>

definition strip :: "string \<Rightarrow> string \<Rightarrow> string" where
  "strip chars w = rev (dropWhile (\<lambda>c. c \<in> set chars) (rev (dropWhile (\<lambda>c. c \<in> set chars) w)))"

text \<open>\<open>s.startswith(p)\<close>.\<close>

definition startswith :: "string \<Rightarrow> string \<Rightarrow> bool" where
  "startswith s p = (take (length p) s = p)"

text \<open>\<open>string.punctuation\<close>: the 32 punctuation characters of ASCII, in order.\<close>

definition string_punctuation :: string where
  "string_punctuation =
     [CHR ''!'', CHR 0x22, CHR ''#'', CHR ''$'', CHR ''%'', CHR ''&'', CHR 0x27, CHR ''('',
      CHR '')'', CHR ''*'', CHR ''+'', CHR '','', CHR ''-'', CHR ''.'', CHR ''/'', CHR '':'',
      CHR '';'', CHR ''<'', CHR ''='', CHR ''>'', CHR ''?'', CHR ''@'', CHR ''['', CHR 0x5C,
      CHR '']'', CHR ''^'', CHR ''_'', CHR 0x60, CHR ''{'', CHR ''|'', CHR ''}'', CHR ''~'']"

text \<open>
  \<open>s.split(sep)\<close> for a non-empty separator: the scan from the left, \<open>cur\<close> holding the
  piece being read, reversed. At an occurrence of \<open>sep\<close> the piece ends and the scan goes
  on behind the occurrence. The list it returns is never empty.
\<close>

fun split_sep :: "string \<Rightarrow> string \<Rightarrow> string \<Rightarrow> string list" where
  "split_sep sep cur [] = [rev cur]"
| "split_sep sep cur (c # cs) =
     (if startswith (c # cs) sep then rev cur # split_sep sep [] (drop (length sep - 1) cs)
      else split_sep sep (c # cur) cs)"

text \<open>\<open>s.split('base64,')[-1]\<close>\<close>

definition after_base64 :: "string \<Rightarrow> string" where
  "after_base64 s = last (split_sep ''base64,'' [] s)"

text \<open>
  \<open>str.encode(s)\<close>: UTF-8, which writes a code point below 128 as itself and one from 128
  to 255 in two bytes.
\<close>

definition encode_char :: "char \<Rightarrow> bytes" where
  "encode_char c =
     (let n = of_char c :: nat
      in if n < 128 then [c] else [char_of (192 + n div 64), char_of (128 + n mod 64)])"

definition str_encode :: "string \<Rightarrow> bytes" where
  "str_encode s = concat (map encode_char s)"

text \<open>\<open>s.lower()\<close> on the code points below 256.\<close>

definition lower_char :: "char \<Rightarrow> char" where
  "lower_char c =
     (let n = of_char c :: nat
      in if (65 \<le> n \<and> n \<le> 90) \<or> (192 \<le> n \<and> n \<le> 222 \<and> n \<noteq> 215) then char_of (n + 32) else c)"

definition lower :: "string \<Rightarrow> string" where
  "lower s = map lower_char s"

section \<open>Errors\<close>

text \<open>
  The error kinds of the handlers. A \<open>self.error(...)\<close> response and an exception of the
  access layer are the kinds of the specification's taxonomy; an exception that no code
  catches is \<open>Unhandled\<close>.
\<close>

datatype py_exception = AttributeError | TypeError | ValueError | BinasciiError | UnicodeDecodeError

datatype error =
    MissingField
  | MalformedAttachment
  | AttachmentConsistencyError
  | AccessDenied
  | NotFoundOrForbidden
  | StoreError
  | InvalidParameters
  | Unhandled py_exception

section \<open>Base64 and \<open>strtobool\<close>, of the standard library\<close>

definition b64_alphabet :: string where
  "b64_alphabet = ''ABCDEFGHIJKLMNOPQRSTUVWXYZabcdefghijklmnopqrstuvwxyz0123456789+/''"

definition b64_char :: "nat \<Rightarrow> char" where
  "b64_char i = b64_alphabet ! i"

fun index_of :: "'a \<Rightarrow> 'a list \<Rightarrow> nat option" where
  "index_of x [] = None"
| "index_of x (y # ys) = (if x = y then Some 0 else map_option Suc (index_of x ys))"

definition b64_index :: "char \<Rightarrow> nat option" where
  "b64_index c = index_of c b64_alphabet"

text \<open>
  The base64 encoding of a byte string (RFC 4648, with padding): what a client sends as
  the body of an attachment. Three bytes give four characters of the alphabet.
\<close>

fun b64encode :: "bytes \<Rightarrow> string" where
  "b64encode [] = []"
| "b64encode [x] =
     (let a = of_char x :: nat
      in [b64_char (a div 4), b64_char (a mod 4 * 16), CHR ''='', CHR ''=''])"
| "b64encode [x, y] =
     (let a = of_char x :: nat; b = of_char y :: nat
      in [b64_char (a div 4), b64_char (a mod 4 * 16 + b div 16), b64_char (b mod 16 * 4),
          CHR ''=''])"
| "b64encode (x # y # z # rest) =
     (let a = of_char x :: nat; b = of_char y :: nat; c = of_char z :: nat
      in [b64_char (a div 4), b64_char (a mod 4 * 16 + b div 16),
          b64_char (b mod 16 * 4 + c div 64), b64_char (c mod 64)] @ b64encode rest)"

text \<open>
  Modelled from the spec: \<open>base64.b64decode\<close> is the standard library's and not part of the
  sources; the specification has the read path decode standard base64 text to raw bytes.
  This is the library's decoder in its default, non-validating mode: a character outside
  the alphabet is discarded, four characters give three bytes, padding that completes a
  group ends the input, and an incomplete group is an error (\<open>binascii.Error\<close>).
  \<open>quad_pos\<close> is the position in the group of four, \<open>leftchar\<close> the bits left over from
  the characters read, \<open>pads\<close> the padding characters seen in a row. The bits of the two
  summands of each byte are disjoint, so the sum is the decoder's bitwise or.
\<close>

fun a2b_base64 :: "nat \<Rightarrow> nat \<Rightarrow> nat \<Rightarrow> bytes \<Rightarrow> bytes \<Rightarrow> error + bytes" where
  "a2b_base64 quad_pos leftchar pads out [] =
     (if quad_pos \<noteq> 0 then Inl (Unhandled BinasciiError) else Inr out)"
| "a2b_base64 quad_pos leftchar pads out (ch # rest) =
     (if ch = CHR ''='' then
        (if 2 \<le> quad_pos \<and> 4 \<le> quad_pos + (pads + 1) then Inr out
         else a2b_base64 quad_pos leftchar (if 2 \<le> quad_pos then pads + 1 else pads) out rest)
      else
        (case b64_index ch of
           None \<Rightarrow> a2b_base64 quad_pos leftchar pads out rest
         | Some v \<Rightarrow>
             (if quad_pos = 0 then a2b_base64 1 v 0 out rest
              else if quad_pos = 1 then
                a2b_base64 2 (v mod 16) 0 (out @ [char_of (leftchar * 4 + v div 16)]) rest
              else if quad_pos = 2 then
                a2b_base64 3 (v mod 4) 0 (out @ [char_of (leftchar * 16 + v div 4)]) rest
              else a2b_base64 0 0 0 (out @ [char_of (leftchar * 64 + v)]) rest)))"

text \<open>
  \<open>base64.b64decode(s)\<close> on an attribute that is \<open>None\<close> or \<open>bytes\<close>: \<open>None\<close> is not
  bytes-like, and the library raises \<open>TypeError\<close>.
\<close>

definition b64decode :: "bytes option \<Rightarrow> error + bytes" where
  "b64decode s =
     (case s of None \<Rightarrow> Inl (Unhandled TypeError) | Some b \<Rightarrow> a2b_base64 0 0 0 [] b)"

text \<open>\<open>distutils.util.strtobool(val)\<close>: lowers \<open>val\<close> and looks it up in two lists.\<close>

definition strtobool :: "string \<Rightarrow> error + bool" where
  "strtobool val =
     (let v = lower val
      in if v \<in> set [''y'', ''yes'', ''t'', ''true'', ''on'', ''1''] then Inr True
         else if v \<in> set [''n'', ''no'', ''f'', ''false'', ''off'', ''0''] then Inr False
         else Inl (Unhandled ValueError))"

section \<open>Mentions\<close>

record user =
  user_id :: nat
  username :: string

text \<open>\<open>punctuation = string.punctuation.replace("-", "").replace("@", "")\<close>\<close>

definition punctuation :: string where
  "punctuation = replace_char (CHR ''@'') [] (replace_char (CHR ''-'') [] string_punctuation)"

text \<open>The loop of \<open>users_mentioned\<close> over the words, appending to \<open>usernames\<close>.\<close>

fun mention_loop :: "string list \<Rightarrow> string list \<Rightarrow> string list" where
  "mention_loop [] usernames = usernames"
| "mention_loop (word # ws) usernames =
     (let word' = strip punctuation word
      in if startswith word' ''@''
         then mention_loop ws (usernames @ [replace_char (CHR ''@'') [] word'])
         else mention_loop ws usernames)"

definition mentioned_usernames :: "string \<Rightarrow> string list" where
  "mentioned_usernames text = mention_loop (split_ws (replace_char (CHR '','') '' '' text)) []"

text \<open>
  \<open>users_mentioned(text)\<close>. The table of users that \<open>User.query\<close> reads is the parameter
  \<open>directory\<close>; \<open>filter(User.username.in_(usernames)).all()\<close> returns the rows whose
  username is in the list.
\<close>

definition users_mentioned :: "user list \<Rightarrow> string \<Rightarrow> user list" where
  "users_mentioned directory text =
     filter (\<lambda>u. username u \<in> set (mentioned_usernames text)) directory"

text \<open>
  The mention extractor as the specification words it, written without the functions of
  the code above. Whitespace is given by its code points and punctuation by the ranges
  of ASCII; a delimiter is whitespace or a comma.
\<close>

definition spec_whitespace :: "char \<Rightarrow> bool" where
  "spec_whitespace c =
     (let n = of_char c :: nat
      in (9 \<le> n \<and> n \<le> 13) \<or> (28 \<le> n \<and> n \<le> 32) \<or> n = 133 \<or> n = 160)"

definition spec_delimiter :: "char \<Rightarrow> bool" where
  "spec_delimiter c = (spec_whitespace c \<or> c = CHR '','')"

text \<open>
  The tokens of a text: its maximal runs of characters that are not delimiters, built
  from the right, a character joining the token that starts behind it.
\<close>

fun spec_tokens :: "string \<Rightarrow> string list" where
  "spec_tokens [] = []"
| "spec_tokens [c] = (if spec_delimiter c then [] else [[c]])"
| "spec_tokens (c # c' # cs) =
     (if spec_delimiter c then spec_tokens (c' # cs)
      else if spec_delimiter c' then [c] # spec_tokens (c' # cs)
      else (case spec_tokens (c' # cs) of [] \<Rightarrow> [[c]] | t # ts \<Rightarrow> (c # t) # ts))"

definition spec_punctuation :: "char \<Rightarrow> bool" where
  "spec_punctuation c =
     (let n = of_char c :: nat
      in (33 \<le> n \<and> n \<le> 47) \<or> (58 \<le> n \<and> n \<le> 64) \<or> (91 \<le> n \<and> n \<le> 96) \<or>
         (123 \<le> n \<and> n \<le> 126))"

text \<open>What is stripped from a token: punctuation, but neither the hyphen nor the at-sign.\<close>

definition strippable :: "char \<Rightarrow> bool" where
  "strippable c = (spec_punctuation c \<and> c \<noteq> CHR ''-'' \<and> c \<noteq> CHR ''@'')"

fun strip_leading :: "string \<Rightarrow> string" where
  "strip_leading [] = []"
| "strip_leading (c # cs) = (if strippable c then strip_leading cs else c # cs)"

fun strip_trailing :: "string \<Rightarrow> string" where
  "strip_trailing [] = []"
| "strip_trailing (c # cs) =
     (case strip_trailing cs of
        [] \<Rightarrow> if strippable c then [] else [c]
      | d # ds \<Rightarrow> c # d # ds)"

definition spec_strip :: "string \<Rightarrow> string" where
  "spec_strip tok = strip_trailing (strip_leading tok)"

text \<open>
  A token, stripped, is a candidate when it starts with an at-sign, and names the user
  whose username is the stripped token without its at-signs.
\<close>

definition extractMentions_spec :: "user list \<Rightarrow> string \<Rightarrow> user set" where
  "extractMentions_spec directory text =
     {u \<in> set directory.
        \<exists>tok \<in> set (spec_tokens text).
          (case spec_strip tok of [] \<Rightarrow> False | c # _ \<Rightarrow> c = CHR ''@'') \<and>
          username u = filter (\<lambda>c. c \<noteq> CHR ''@'') (spec_strip tok)}"

section \<open>Data model\<close>

text \<open>A value of a request's JSON body, as \<open>self.get_json()\<close> returns it.\<close>

datatype json =
    JNull
  | JBool bool
  | JNum int
  | JStr string
  | JArr "json list"
  | JObj "(string \<times> json) list"

text \<open>
  A \<open>Comment\<close> row. A group is its id. The attachment's name is the JSON value the
  handler stores, \<open>JNull\<close> being Python's \<open>None\<close>; its bytes are \<open>None\<close> or a byte string.
\<close>

record comment =
  c_text :: string
  c_obj_id :: string
  c_attachment_bytes :: "bytes option"
  c_attachment_name :: json
  c_author :: nat
  c_groups :: "nat list"

record notification =
  n_user :: user
  n_text :: string
  n_url :: string

text \<open>
  What leaves the handler, in order: a commit of the session that succeeded
  (\<open>verify_and_commit\<close>), a push to one user (\<open>self.flow.push\<close>) and a push to all
  (\<open>self.push_all\<close>, with the action and the \<open>obj_key\<close> of its payload).
\<close>

datatype event =
    Committed
  | FlowPush nat string
  | PushAll string string

text \<open>
  The store and the log of events. \<open>w_next_id\<close> is the id the store gives the next
  comment.
\<close>

record world =
  w_comments :: "nat \<rightharpoonup> comment"
  w_notifications :: "notification list"
  w_users :: "user list"
  w_next_id :: nat
  w_events :: "event list"

text \<open>
  The current user: \<open>self.current_user\<close>, with the id of \<open>self.associated_user_object\<close>
  and \<open>accessible_groups\<close>.
\<close>

record requester =
  r_user_id :: nat
  r_username :: string
  r_accessible_groups :: "nat list"

datatype mode = Read | Update | Delete

text \<open>The body of a create request, its fields of the types the handler documents.\<close>

record post_data =
  pd_obj_id :: "string option"
  pd_text :: "string option"
  pd_group_ids :: "nat list option"
  pd_attachment :: "json option"

text \<open>
  The body of an update request. A field is \<open>None\<close> when its key is absent. The name
  of the attachment is a JSON value, \<open>JNull\<close> for a null; the bytes of the attachment
  are \<open>Some None\<close> for a null and \<open>Some (Some s)\<close> for the text \<open>s\<close>.
\<close>

record put_data =
  ud_text :: "string option"
  ud_attachment_name :: "json option"
  ud_attachment_bytes :: "string option option"
  ud_group_ids :: "nat list option"

text \<open>
  The collaborators the handlers call and the sources do not hold, as parameters: the
  access policy on groups and comments, the validation of the \<open>Comment\<close> schema, whether
  \<open>verify_and_commit\<close> succeeds, the \<open>internal_key\<close> of the object of an id, and the UTF-8
  decoding of \<open>bytes.decode()\<close> (\<open>None\<close> when it raises).
\<close>

record env =
  group_accessible :: "requester \<Rightarrow> nat \<Rightarrow> bool"
  comment_accessible :: "requester \<Rightarrow> mode \<Rightarrow> comment \<Rightarrow> bool"
  schema_ok :: "put_data \<Rightarrow> bool"
  commit_ok :: bool
  internal_key :: "string \<Rightarrow> string"
  utf8_decode :: "bytes \<Rightarrow> string option"

datatype attachment_response =
    Download json bytes
  | Inline nat string

section \<open>The access layer\<close>

text \<open>
  Modelled from the spec: \<open>get_if_accessible_by\<close> is not part of the sources. The
  specification gives its interface as \<open>getIfAccessible(entityType, id, user, mode)\<close>,
  which returns the entity, \<open>AccessDenied\<close> or \<open>NotFound\<close>.
\<close>

datatype 'a access = Entity 'a | Denied | NotFound

definition getIfAccessible :: "env \<Rightarrow> requester \<Rightarrow> mode \<Rightarrow> nat \<Rightarrow> world \<Rightarrow> comment access" where
  "getIfAccessible e r m comment_id w =
     (case w_comments w comment_id of
        None \<Rightarrow> NotFound
      | Some c \<Rightarrow> if comment_accessible e r m c then Entity c else Denied)"

text \<open>
  Modelled from the spec: \<open>Comment.get_if_accessible_by(comment_id, user, mode,
  raise_if_none=True)\<close> returns the comment or raises; by the specification the handler
  fails with \<open>NotFoundOrForbidden\<close> when the comment is absent and when it is inaccessible.
\<close>

definition Comment_get_if_accessible_by ::
  "env \<Rightarrow> requester \<Rightarrow> mode \<Rightarrow> nat \<Rightarrow> world \<Rightarrow> error + comment" where
  "Comment_get_if_accessible_by e r m comment_id w =
     (case getIfAccessible e r m comment_id w of
        Entity c \<Rightarrow> Inr c
      | Denied \<Rightarrow> Inl NotFoundOrForbidden
      | NotFound \<Rightarrow> Inl NotFoundOrForbidden)"

text \<open>
  Modelled from the spec: \<open>Group.get_if_accessible_by(group_ids, user,
  raise_if_none=True)\<close> returns the groups of the ids, one for each id, or raises; by the
  specification an id that does not resolve to a group the requester may grant fails the
  whole resolution with \<open>AccessDenied\<close>.
\<close>

definition Group_get_if_accessible_by :: "env \<Rightarrow> requester \<Rightarrow> nat list \<Rightarrow> error + nat list" where
  "Group_get_if_accessible_by e r group_ids =
     (if list_all (group_accessible e r) group_ids then Inr group_ids else Inl AccessDenied)"

text \<open>
  Modelled from the spec: \<open>schema.load(data, partial=True)\<close> validates the body against
  the \<open>Comment\<close> schema, which is not part of the sources, and with the comment's id in the
  body sets the fields given on the comment of the session. The specification has an
  update of the text and of the attachment fields; a field whose key is absent is left as
  it is.
\<close>

definition schema_load :: "env \<Rightarrow> put_data \<Rightarrow> comment \<Rightarrow> error + comment" where
  "schema_load e data c =
     (if schema_ok e data then
        Inr (c\<lparr>c_text := (case ud_text data of None \<Rightarrow> c_text c | Some t \<Rightarrow> t),
               c_attachment_name :=
                 (case ud_attachment_name data of None \<Rightarrow> c_attachment_name c | Some n \<Rightarrow> n)\<rparr>)
      else Inl InvalidParameters)"

section \<open>\<open>CommentHandler\<close>\<close>


text \<open>
  The groups of \<open>post\<close>: \<open>not group_ids\<close> holds of an absent and of an empty list.
\<close>

definition post_groups :: "env \<Rightarrow> requester \<Rightarrow> nat list option \<Rightarrow> error + nat list" where
  "post_groups e r group_ids =
     (case group_ids of
        None \<Rightarrow> Inr (r_accessible_groups r)
      | Some ids \<Rightarrow>
          if ids = [] then Inr (r_accessible_groups r) else Group_get_if_accessible_by e r ids)"

text \<open>
  The attachment of \<open>post\<close>: the bytes and the name. \<open>body.split\<close> on a body that is not
  a string raises \<open>AttributeError\<close>.
\<close>

definition post_attachment :: "json option \<Rightarrow> error + bytes option \<times> json" where
  "post_attachment attachment =
     (case attachment of
        None \<Rightarrow> Inr (None, JNull)
      | Some (JObj items) \<Rightarrow>
          (case (map_of items ''body'', map_of items ''name'') of
             (Some body, Some name) \<Rightarrow>
               (case body of
                  JStr b \<Rightarrow> Inr (Some (str_encode (after_base64 b)), name)
                | _ \<Rightarrow> Inl (Unhandled AttributeError))
           | _ \<Rightarrow> Inl MalformedAttachment)
      | Some _ \<Rightarrow> Inl MalformedAttachment)"

definition mention_notification :: "requester \<Rightarrow> string \<Rightarrow> user \<Rightarrow> notification" where
  "mention_notification r obj_id user_mentioned =
     \<lparr>n_user = user_mentioned,
      n_text = ''*@'' @ r_username r @ ''* mentioned you in a comment on *'' @ obj_id @ ''*'',
      n_url = ''/source/'' @ obj_id\<rparr>"

text \<open>
  The end of \<open>post\<close>, from \<open>users_mentioned(comment_text)\<close> on: the notifications and the
  comment are added to the session, the session is committed, and the pushes follow. A
  commit that fails raises, and what the session held is not stored.
\<close>

definition post_commit ::
  "env \<Rightarrow> requester \<Rightarrow> string \<Rightarrow> comment \<Rightarrow> world \<Rightarrow> (error + nat) \<times> world" where
  "post_commit e r obj_id c w =
     (let users_mentioned_in_comment = users_mentioned (w_users w) (c_text c);
          added = map (mention_notification r obj_id) users_mentioned_in_comment
      in if \<not> commit_ok e then (Inl StoreError, w)
         else
           (let comment_id = w_next_id w
            in (Inr comment_id,
                w\<lparr>w_comments := (w_comments w)(comment_id \<mapsto> c),
                  w_notifications := w_notifications w @ added,
                  w_next_id := Suc comment_id,
                  w_events := w_events w @ [Committed]
                    @ map (\<lambda>u. FlowPush (user_id u) ''skyportal/FETCH_NOTIFICATIONS'')
                        users_mentioned_in_comment
                    @ [PushAll ''skyportal/REFRESH_SOURCE'' (internal_key e obj_id)]\<rparr>)))"

text \<open>
  \<open>CommentHandler.post\<close>. A text that is absent is \<open>None\<close>, and \<open>users_mentioned(None)\<close>
  raises \<open>AttributeError\<close> at \<open>text.replace\<close>.
\<close>

definition post :: "env \<Rightarrow> requester \<Rightarrow> post_data \<Rightarrow> world \<Rightarrow> (error + nat) \<times> world" where
  "post e r data w =
     (case pd_obj_id data of
        None \<Rightarrow> (Inl MissingField, w)
      | Some obj_id \<Rightarrow>
          (case post_groups e r (pd_group_ids data) of
             Inl err \<Rightarrow> (Inl err, w)
           | Inr groups \<Rightarrow>
               (case post_attachment (pd_attachment data) of
                  Inl err \<Rightarrow> (Inl err, w)
                | Inr (attachment_bytes, attachment_name) \<Rightarrow>
                    (case pd_text data of
                       None \<Rightarrow> (Inl (Unhandled AttributeError), w)
                     | Some comment_text \<Rightarrow>
                         post_commit e r obj_id
                           \<lparr>c_text = comment_text, c_obj_id = obj_id,
                            c_attachment_bytes = attachment_bytes,
                            c_attachment_name = attachment_name,
                            c_author = r_user_id r, c_groups = groups\<rparr> w))))"

text \<open>
  \<open>data.pop('attachment_bytes', None)\<close>: \<open>None\<close> when the key is absent, and when its
  value is null.
\<close>

definition pop_attachment_bytes :: "put_data \<Rightarrow> string option" where
  "pop_attachment_bytes data =
     (case ud_attachment_bytes data of None \<Rightarrow> None | Some v \<Rightarrow> v)"

text \<open>
  The attachment bytes of \<open>put\<close>: set when \<open>attachment_bytes is not None\<close>.
\<close>

definition put_attachment :: "put_data \<Rightarrow> comment \<Rightarrow> comment" where
  "put_attachment data c =
     (case pop_attachment_bytes data of
        None \<Rightarrow> c
      | Some attachment_bytes \<Rightarrow>
          c\<lparr>c_attachment_bytes := Some (str_encode (after_base64 attachment_bytes))\<rparr>)"

text \<open>The groups of \<open>put\<close>: set when \<open>group_ids is not None\<close>.\<close>

definition put_groups :: "env \<Rightarrow> requester \<Rightarrow> nat list option \<Rightarrow> comment \<Rightarrow> error + comment" where
  "put_groups e r group_ids c =
     (case group_ids of
        None \<Rightarrow> Inr c
      | Some ids \<Rightarrow>
          (case Group_get_if_accessible_by e r ids of
             Inl err \<Rightarrow> Inl err
           | Inr groups \<Rightarrow> Inr (c\<lparr>c_groups := groups\<rparr>)))"

text \<open>\<open>CommentHandler.put\<close>\<close>

definition put :: "env \<Rightarrow> requester \<Rightarrow> nat \<Rightarrow> put_data \<Rightarrow> world \<Rightarrow> (error + unit) \<times> world" where
  "put e r comment_id data w =
     (case Comment_get_if_accessible_by e r Update comment_id w of
        Inl err \<Rightarrow> (Inl err, w)
      | Inr c0 \<Rightarrow>
          (case schema_load e data c0 of
             Inl err \<Rightarrow> (Inl err, w)
           | Inr c1 \<Rightarrow>
               (let c = put_attachment data c1;
                    bytes_is_none = (c_attachment_bytes c = None);
                    name_is_none = (c_attachment_name c = JNull)
                in if bytes_is_none \<noteq> name_is_none then (Inl AttachmentConsistencyError, w)
                   else
                     (case put_groups e r (ud_group_ids data) c of
                        Inl err \<Rightarrow> (Inl err, w)
                      | Inr c' \<Rightarrow>
                          if \<not> commit_ok e then (Inl StoreError, w)
                          else
                            (Inr (),
                             w\<lparr>w_comments := (w_comments w)(comment_id \<mapsto> c'),
                               w_events := w_events w
                                 @ [Committed,
                                    PushAll ''skyportal/REFRESH_SOURCE''
                                      (internal_key e (c_obj_id c'))]\<rparr>)))))"


section \<open>\<open>CommentAttachmentHandler\<close>\<close>

text \<open>
  \<open>CommentAttachmentHandler.get\<close>. \<open>download_arg\<close> is the query argument, \<open>None\<close> when the
  request has none. The download carries the attachment's name and the decoded bytes.
\<close>

definition attachment_get ::
  "env \<Rightarrow> requester \<Rightarrow> nat \<Rightarrow> string option \<Rightarrow> world \<Rightarrow> (error + attachment_response) \<times> world" where
  "attachment_get e r comment_id download_arg w =
     (case strtobool (lower (case download_arg of None \<Rightarrow> ''True'' | Some a \<Rightarrow> a)) of
        Inl err \<Rightarrow> (Inl err, w)
      | Inr download \<Rightarrow>
          (case Comment_get_if_accessible_by e r Read comment_id w of
             Inl err \<Rightarrow> (Inl err, w)
           | Inr c \<Rightarrow>
               if \<not> commit_ok e then (Inl StoreError, w)
               else
                 (let w' = w\<lparr>w_events := w_events w @ [Committed]\<rparr>
                  in if download then
                       (case b64decode (c_attachment_bytes c) of
                          Inl err \<Rightarrow> (Inl err, w')
                        | Inr raw \<Rightarrow> (Inr (Download (c_attachment_name c) raw), w'))
                     else
                       (case b64decode (c_attachment_bytes c) of
                          Inl err \<Rightarrow> (Inl err, w')
                        | Inr raw \<Rightarrow>
                            (case utf8_decode e raw of
                               None \<Rightarrow> (Inl (Unhandled UnicodeDecodeError), w')
                             | Some s \<Rightarrow> (Inr (Inline comment_id s), w'))))))"

section \<open>Notions of the specification and example data\<close>

text \<open>\<open>p in s\<close>: the string \<open>p\<close> occurs in \<open>s\<close>.\<close>

fun contains :: "string \<Rightarrow> string \<Rightarrow> bool" where
  "contains [] p = (p = [])"
| "contains (c # cs) p = (startswith (c # cs) p \<or> contains cs p)"

text \<open>
  A separator none of whose later characters is its first one: two occurrences of it
  in a string cannot overlap.
\<close>

definition borderless :: "string \<Rightarrow> bool" where
  "borderless sep = (sep \<noteq> [] \<and> (\<forall>k. 0 < k \<and> k < length sep \<longrightarrow> sep ! k \<noteq> sep ! 0))"

text \<open>
  An attachment field as the specification takes it for malformed: present, and not an
  object, or an object without the field \<open>body\<close> or without the field \<open>name\<close>.
\<close>

definition is_object :: "json \<Rightarrow> bool" where
  "is_object j = (case j of JObj _ \<Rightarrow> True | _ \<Rightarrow> False)"

definition has_field :: "string \<Rightarrow> json \<Rightarrow> bool" where
  "has_field k j = (case j of JObj items \<Rightarrow> k \<in> fst ` set items | _ \<Rightarrow> False)"

definition malformed_attachment :: "json option \<Rightarrow> bool" where
  "malformed_attachment attachment =
     (case attachment of
        None \<Rightarrow> False
      | Some j \<Rightarrow> \<not> (is_object j \<and> has_field ''body'' j \<and> has_field ''name'' j))"

text \<open>
  The attachment of a comment after a partial update, as the specification's joint
  nullability reads it: is the name null, are the bytes null, in the current state with
  the fields of the update applied.
\<close>

definition resulting_name_null :: "comment \<Rightarrow> put_data \<Rightarrow> bool" where
  "resulting_name_null c data =
     (case ud_attachment_name data of None \<Rightarrow> c_attachment_name c = JNull | Some n \<Rightarrow> n = JNull)"

definition resulting_bytes_null :: "comment \<Rightarrow> put_data \<Rightarrow> bool" where
  "resulting_bytes_null c data =
     (case ud_attachment_bytes data of
        None \<Rightarrow> c_attachment_bytes c = None
      | Some None \<Rightarrow> True
      | Some (Some b) \<Rightarrow> False)"

text \<open>
  The value of \<open>bytes_is_none\<close> in \<open>put\<close>: whether the comment's bytes are \<open>None\<close> after
  the handler's assignment.
\<close>

definition put_bytes_is_none :: "comment \<Rightarrow> put_data \<Rightarrow> bool" where
  "put_bytes_is_none c data = (c_attachment_bytes (put_attachment data c) = None)"

text \<open>The events by kind: a push to one user, a push to all.\<close>

definition is_user_push :: "event \<Rightarrow> bool" where
  "is_user_push ev = (case ev of FlowPush _ _ \<Rightarrow> True | _ \<Rightarrow> False)"

definition is_broadcast :: "event \<Rightarrow> bool" where
  "is_broadcast ev = (case ev of PushAll _ _ \<Rightarrow> True | _ \<Rightarrow> False)"

text \<open>
  Example data: a policy under which a group is accessible to the users it is listed
  for and a comment to the users of one of its groups; a store with the users alice and
  bob and one comment, of group 5, without attachment; alice, of the groups 5 and 7, and
  carol, of no group.
\<close>

definition example_env :: env where
  "example_env =
     \<lparr>group_accessible = (\<lambda>r g. g \<in> set (r_accessible_groups r)),
      comment_accessible = (\<lambda>r m c. list_ex (\<lambda>g. g \<in> set (r_accessible_groups r)) (c_groups c)),
      schema_ok = (\<lambda>data. True),
      commit_ok = True,
      internal_key = (\<lambda>obj_id. ''key:'' @ obj_id),
      utf8_decode = (\<lambda>b. if list_all (\<lambda>c. (of_char c :: nat) < 128) b then Some b else None)\<rparr>"

definition failing_env :: env where
  "failing_env = example_env\<lparr>commit_ok := False\<rparr>"

definition example_comment :: comment where
  "example_comment =
     \<lparr>c_text = ''first light'', c_obj_id = ''ZTF21abc'', c_attachment_bytes = None,
      c_attachment_name = JNull, c_author = 2, c_groups = [5]\<rparr>"

definition example_world :: world where
  "example_world =
     \<lparr>w_comments = [0 \<mapsto> example_comment],
      w_notifications = [],
      w_users = [\<lparr>user_id = 1, username = ''alice''\<rparr>, \<lparr>user_id = 2, username = ''bob''\<rparr>],
      w_next_id = 1,
      w_events = []\<rparr>"

definition alice :: requester where
  "alice = \<lparr>r_user_id = 1, r_username = ''alice'', r_accessible_groups = [5, 7]\<rparr>"

definition carol :: requester where
  "carol = \<lparr>r_user_id = 3, r_username = ''carol'', r_accessible_groups = []\<rparr>"

definition example_post :: post_data where
  "example_post =
     \<lparr>pd_obj_id = Some ''ZTF21abc'', pd_text = Some ''thanks @bob, @bob and @nobody'',
      pd_group_ids = None, pd_attachment = None\<rparr>"

text \<open>
  More example requests: a create request without text; one with a well-formed
  attachment, the bytes "hello" behind a data-URL header; one whose attachment has no
  name.
\<close>

definition post_without_text :: post_data where
  "post_without_text =
     \<lparr>pd_obj_id = Some ''ZTF21abc'', pd_text = None, pd_group_ids = None,
      pd_attachment = None\<rparr>"

definition post_without_obj_id :: post_data where
  "post_without_obj_id =
     \<lparr>pd_obj_id = None, pd_text = Some ''no object'', pd_group_ids = None,
      pd_attachment = None\<rparr>"

definition example_attachment :: json where
  "example_attachment =
     JObj [(''body'', JStr ''data:text/plain;base64,aGVsbG8=''), (''name'', JStr ''hello.txt'')]"

definition post_with_attachment :: post_data where
  "post_with_attachment =
     \<lparr>pd_obj_id = Some ''ZTF21abc'', pd_text = Some ''see the file'', pd_group_ids = Some [7],
      pd_attachment = Some example_attachment\<rparr>"

definition post_malformed :: post_data where
  "post_malformed =
     \<lparr>pd_obj_id = Some ''ZTF21abc'', pd_text = Some ''see the file'', pd_group_ids = None,
      pd_attachment = Some (JObj [(''body'', JStr ''aGVsbG8='')])\<rparr>"

text \<open>
  Example update requests: one that sets the attachment's name alone, one that sets name
  and bytes, one that sets the text alone, one that names group 9, which alice cannot
  grant, and one that names group 7. And a create request that names group 9.
\<close>

definition put_name_only :: put_data where
  "put_name_only =
     \<lparr>ud_text = None, ud_attachment_name = Some (JStr ''plot.png''),
      ud_attachment_bytes = None, ud_group_ids = None\<rparr>"

definition put_name_and_bytes :: put_data where
  "put_name_and_bytes =
     \<lparr>ud_text = None, ud_attachment_name = Some (JStr ''plot.png''),
      ud_attachment_bytes = Some (Some ''aGVsbG8=''), ud_group_ids = None\<rparr>"

text \<open>
  A comment with an attachment, a store that holds it as comment 1, and an update that
  sets the attachment's name and bytes to null.
\<close>

definition comment_with_attachment :: comment where
  "comment_with_attachment =
     \<lparr>c_text = ''see the file'', c_obj_id = ''ZTF21abc'',
      c_attachment_bytes = Some ''aGVsbG8='', c_attachment_name = JStr ''hello.txt'',
      c_author = 1, c_groups = [7]\<rparr>"

definition world_with_attachment :: world where
  "world_with_attachment =
     example_world\<lparr>w_comments := (w_comments example_world)(1 \<mapsto> comment_with_attachment),
       w_next_id := 2\<rparr>"

definition put_clear_attachment :: put_data where
  "put_clear_attachment =
     \<lparr>ud_text = None, ud_attachment_name = Some JNull, ud_attachment_bytes = Some None,
      ud_group_ids = None\<rparr>"

definition put_text_only :: put_data where
  "put_text_only =
     \<lparr>ud_text = Some ''second light'', ud_attachment_name = None,
      ud_attachment_bytes = None, ud_group_ids = None\<rparr>"

definition put_group_9 :: put_data where
  "put_group_9 =
     \<lparr>ud_text = None, ud_attachment_name = None, ud_attachment_bytes = None,
      ud_group_ids = Some [7, 9]\<rparr>"

definition put_group_7 :: put_data where
  "put_group_7 =
     \<lparr>ud_text = None, ud_attachment_name = None, ud_attachment_bytes = None,
      ud_group_ids = Some [7]\<rparr>"

definition post_group_9 :: post_data where
  "post_group_9 =
     \<lparr>pd_obj_id = Some ''ZTF21abc'', pd_text = Some ''see the file'', pd_group_ids = Some [7, 9],
      pd_attachment = None\<rparr>"


definition post_with_empty_attachment :: post_data where
  "post_with_empty_attachment =
     \<lparr>pd_obj_id = Some ''ZTF21abc'', pd_text = Some ''see the file'', pd_group_ids = Some [7],
      pd_attachment = Some (JObj [(''body'', JStr []), (''name'', JStr ''empty.txt'')])\<rparr>"

section \<open>The mention extractor meets its specification\<close>

lemma replace_char_Nil: "replace_char c [] s = filter (\<lambda>x. x \<noteq> c) s"
  by (induction s) (simp_all add: replace_char_def)

lemma startswith_at:
  "startswith w ''@'' = (case w of [] \<Rightarrow> False | c # _ \<Rightarrow> c = CHR ''@'')"
  by (cases w) (simp_all add: startswith_def)

lemma is_space_codes:
  "[9, 10, 11, 12, 13, 28, 29, 30, 31, 32, 133, 160] = [9..<14] @ [28..<33] @ [133, 160 :: nat]"
  by code_simp

lemma is_space_spec: "is_space c = spec_whitespace c"
  unfolding is_space_def is_space_codes spec_whitespace_def Let_def
  by (simp del: upt_Suc; arith)

lemma of_char_mem: "c \<in> set cs \<longleftrightarrow> (of_char c :: nat) \<in> set (map of_char cs)"
  by (auto simp: image_iff)

lemma punctuation_codes:
  "map of_char punctuation =
     [33..<45] @ [46..<48] @ [58..<64] @ [91..<97] @ [123..<127 :: nat]"
  by code_simp

lemma char_is: "c = CHR ''-'' \<longleftrightarrow> (of_char c :: nat) = 45" "c = CHR ''@'' \<longleftrightarrow> (of_char c :: nat) = 64"
proof -
  have "c = CHR ''-'' \<longleftrightarrow> (of_char c :: nat) = of_char (CHR ''-'')"
    by (simp only: of_char_eq_iff)
  then show "c = CHR ''-'' \<longleftrightarrow> (of_char c :: nat) = 45" by simp
  have "c = CHR ''@'' \<longleftrightarrow> (of_char c :: nat) = of_char (CHR ''@'')"
    by (simp only: of_char_eq_iff)
  then show "c = CHR ''@'' \<longleftrightarrow> (of_char c :: nat) = 64" by simp
qed

lemma punctuation_strippable: "c \<in> set punctuation \<longleftrightarrow> strippable c"
  unfolding of_char_mem [of c punctuation] punctuation_codes strippable_def
    spec_punctuation_def Let_def char_is
  by (simp del: upt_Suc; arith)

lemma spec_tokens_delimiter: "spec_delimiter c \<Longrightarrow> spec_tokens (c # cs) = spec_tokens cs"
  by (cases cs) simp_all

lemma spec_tokens_not_Nil: "\<not> spec_delimiter c \<Longrightarrow> spec_tokens (c # cs) \<noteq> []"
  by (cases cs) (simp_all split: list.splits)

lemma spec_tokens_letter:
  "\<not> spec_delimiter c \<Longrightarrow>
   spec_tokens (c # cs) =
     (if cs = [] \<or> spec_delimiter (hd cs) then [c] # spec_tokens cs
      else (c # hd (spec_tokens cs)) # tl (spec_tokens cs))"
proof (cases cs)
  case Nil
  then show "\<not> spec_delimiter c \<Longrightarrow> ?thesis" by simp
next
  case (Cons c' cs')
  assume "\<not> spec_delimiter c"
  then show ?thesis
    using Cons spec_tokens_not_Nil [of c' cs']
    by (cases "spec_tokens (c' # cs')") auto
qed

lemma split_acc_spec_tokens:
  "split_acc spec_delimiter cur s =
     (if cur = [] then spec_tokens s
      else if s = [] \<or> spec_delimiter (hd s) then rev cur # spec_tokens s
      else (rev cur @ hd (spec_tokens s)) # tl (spec_tokens s))"
proof (induction s arbitrary: cur)
  case Nil
  show ?case by simp
next
  case (Cons c cs)
  show ?case
  proof (cases "spec_delimiter c")
    case True
    then show ?thesis
      by (simp add: Cons [of "[]"] spec_tokens_delimiter)
  next
    case False
    then show ?thesis
      by (simp add: Cons [of "c # cur"] spec_tokens_letter)
  qed
qed

lemma strip_leading_dropWhile: "strip_leading w = dropWhile strippable w"
  by (induction w) simp_all

lemma strip_trailing_Nil: "strip_trailing w = [] \<longleftrightarrow> (\<forall>c \<in> set w. strippable c)"
  by (induction w) (auto split: list.splits)

lemma strip_trailing_dropWhile: "strip_trailing w = rev (dropWhile strippable (rev w))"
proof (induction w)
  case Nil
  show ?case by simp
next
  case (Cons c cs)
  show ?case
  proof (cases "\<forall>x \<in> set cs. strippable x")
    case True
    then have "strip_trailing cs = []" by (simp add: strip_trailing_Nil)
    then show ?thesis
      using True by (simp add: dropWhile_append)
  next
    case False
    then have "strip_trailing cs \<noteq> []" by (simp add: strip_trailing_Nil)
    then obtain d ds where d: "strip_trailing cs = d # ds" by (cases "strip_trailing cs") auto
    show ?thesis
      using False d Cons by (simp add: dropWhile_append)
  qed
qed

lemma strip_spec: "strip punctuation w = spec_strip w"
proof -
  have "(\<lambda>c. c \<in> set punctuation) = strippable"
    by (rule ext) (rule punctuation_strippable)
  then show ?thesis
    by (simp add: strip_def spec_strip_def strip_leading_dropWhile strip_trailing_dropWhile)
qed

lemma split_acc_replace_comma:
  "split_acc is_space cur (replace_char (CHR '','') '' '' s) = split_acc spec_delimiter cur s"
  by (induction s arbitrary: cur)
    (simp_all add: replace_char_def spec_delimiter_def is_space_spec [symmetric], simp add: is_space_def)

lemma words_spec_tokens: "split_ws (replace_char (CHR '','') '' '' text) = spec_tokens text"
  by (simp add: split_ws_def split_acc_replace_comma split_acc_spec_tokens)

lemma set_mention_loop:
  "set (mention_loop ws acc) =
   set acc \<union> {filter (\<lambda>c. c \<noteq> CHR ''@'') (spec_strip w) | w.
                 w \<in> set ws \<and> startswith (spec_strip w) ''@''}"
  by (induction ws arbitrary: acc) (auto simp: Let_def replace_char_Nil strip_spec)

lemma users_mentioned_set:
  "set (users_mentioned directory text) = extractMentions_spec directory text"
  unfolding users_mentioned_def extractMentions_spec_def mentioned_usernames_def
    words_spec_tokens set_mention_loop startswith_at
  by auto

lemma mentioned_usernames_brackets:
  "mentioned_usernames ''thanks (@alice), see @bob.'' = [''alice'', ''bob'']"
  by code_simp

lemma mentioned_usernames_bang: "mentioned_usernames ''ping @jane-doe!'' = [''jane-doe'']"
  by code_simp

lemma mentioned_usernames_kept:
  "mentioned_usernames ''mail a@b to -@alice- or (@@bob)'' = [''bob'']"
  by code_simp

lemma mentioned_usernames_newline:
  "mentioned_usernames (''done'' @ [CHR 0x0A] @ ''@bob'' @ [CHR 0x09] @ ''@alice'') =
     [''bob'', ''alice'']"
  by code_simp

lemma mentioned_usernames_hello:
  "mentioned_usernames ''hello @alice, @bob and @nobody'' = [''alice'', ''bob'', ''nobody'']"
  by code_simp

lemma mentioned_usernames_hyphen: "mentioned_usernames ''cc @jane-doe'' = [''jane-doe'']"
  by code_simp

text \<open>
  C2: for every text and every table of users, \<open>users_mentioned\<close> returns exactly the
  users of the table whose username is a candidate of the text as the specification
  words it: a token between whitespace and commas that, stripped of punctuation other
  than the hyphen and the at-sign at both ends, starts with an at-sign, without its
  at-signs. On "hello @alice, @bob and @nobody" with the users alice and bob it returns
  alice and bob, and on "cc @jane-doe" with the user jane-doe it returns jane-doe.
  Brackets, a full stop and an exclamation mark around a mention are stripped; a hyphen
  before the at-sign is not, so that the token is no mention; a line feed and a tabulator
  separate tokens.
\<close>

theorem users_mentioned_meets_spec:
  "set (users_mentioned directory text) = extractMentions_spec directory text \<and>
   set (users_mentioned
          [\<lparr>user_id = 1, username = ''alice''\<rparr>, \<lparr>user_id = 2, username = ''bob''\<rparr>]
          ''hello @alice, @bob and @nobody'') =
     {\<lparr>user_id = 1, username = ''alice''\<rparr>, \<lparr>user_id = 2, username = ''bob''\<rparr>} \<and>
   set (users_mentioned [\<lparr>user_id = 3, username = ''jane-doe''\<rparr>] ''cc @jane-doe'') =
     {\<lparr>user_id = 3, username = ''jane-doe''\<rparr>} \<and>
   set (users_mentioned
          [\<lparr>user_id = 1, username = ''alice''\<rparr>, \<lparr>user_id = 2, username = ''bob''\<rparr>]
          ''thanks (@alice), see @bob.'') =
     {\<lparr>user_id = 1, username = ''alice''\<rparr>, \<lparr>user_id = 2, username = ''bob''\<rparr>} \<and>
   set (users_mentioned
          [\<lparr>user_id = 3, username = ''jane-doe''\<rparr>, \<lparr>user_id = 4, username = ''jane''\<rparr>]
          ''ping @jane-doe!'') =
     {\<lparr>user_id = 3, username = ''jane-doe''\<rparr>} \<and>
   set (users_mentioned
          [\<lparr>user_id = 1, username = ''alice''\<rparr>, \<lparr>user_id = 2, username = ''bob''\<rparr>,
           \<lparr>user_id = 5, username = ''b''\<rparr>]
          ''mail a@b to -@alice- or (@@bob)'') =
     {\<lparr>user_id = 2, username = ''bob''\<rparr>} \<and>
   set (users_mentioned
          [\<lparr>user_id = 1, username = ''alice''\<rparr>, \<lparr>user_id = 2, username = ''bob''\<rparr>]
          (''done'' @ [CHR 0x0A] @ ''@bob'' @ [CHR 0x09] @ ''@alice'')) =
     {\<lparr>user_id = 1, username = ''alice''\<rparr>, \<lparr>user_id = 2, username = ''bob''\<rparr>}"
proof (intro conjI)
  show "set (users_mentioned directory text) = extractMentions_spec directory text"
    by (rule users_mentioned_set)
  show "set (users_mentioned
          [\<lparr>user_id = 1, username = ''alice''\<rparr>, \<lparr>user_id = 2, username = ''bob''\<rparr>]
          ''hello @alice, @bob and @nobody'') =
     {\<lparr>user_id = 1, username = ''alice''\<rparr>, \<lparr>user_id = 2, username = ''bob''\<rparr>}"
    by (simp add: users_mentioned_def mentioned_usernames_hello)
  show "set (users_mentioned [\<lparr>user_id = 3, username = ''jane-doe''\<rparr>] ''cc @jane-doe'') =
     {\<lparr>user_id = 3, username = ''jane-doe''\<rparr>}"
    by (simp add: users_mentioned_def mentioned_usernames_hyphen)
  show "set (users_mentioned
          [\<lparr>user_id = 1, username = ''alice''\<rparr>, \<lparr>user_id = 2, username = ''bob''\<rparr>]
          ''thanks (@alice), see @bob.'') =
     {\<lparr>user_id = 1, username = ''alice''\<rparr>, \<lparr>user_id = 2, username = ''bob''\<rparr>}"
    by (simp add: users_mentioned_def mentioned_usernames_brackets)
  show "set (users_mentioned
          [\<lparr>user_id = 3, username = ''jane-doe''\<rparr>, \<lparr>user_id = 4, username = ''jane''\<rparr>]
          ''ping @jane-doe!'') =
     {\<lparr>user_id = 3, username = ''jane-doe''\<rparr>}"
    by (simp add: users_mentioned_def mentioned_usernames_bang)
  show "set (users_mentioned
          [\<lparr>user_id = 1, username = ''alice''\<rparr>, \<lparr>user_id = 2, username = ''bob''\<rparr>,
           \<lparr>user_id = 5, username = ''b''\<rparr>]
          ''mail a@b to -@alice- or (@@bob)'') =
     {\<lparr>user_id = 2, username = ''bob''\<rparr>}"
    by (simp add: users_mentioned_def mentioned_usernames_kept)
  show "set (users_mentioned
          [\<lparr>user_id = 1, username = ''alice''\<rparr>, \<lparr>user_id = 2, username = ''bob''\<rparr>]
          (''done'' @ [CHR 0x0A] @ ''@bob'' @ [CHR 0x09] @ ''@alice'')) =
     {\<lparr>user_id = 1, username = ''alice''\<rparr>, \<lparr>user_id = 2, username = ''bob''\<rparr>}"
    unfolding users_mentioned_def mentioned_usernames_newline by auto
qed

section \<open>Base64: decoding an encoding gives the bytes back\<close>

lemma b64_alphabet_facts:
  "length b64_alphabet = 64" "distinct b64_alphabet" "CHR ''='' \<notin> set b64_alphabet"
  "CHR '','' \<notin> set b64_alphabet" "list_all (\<lambda>c. (of_char c :: nat) < 128) b64_alphabet"
  by (simp_all add: b64_alphabet_def)

lemma index_of_nth: "distinct xs \<Longrightarrow> i < length xs \<Longrightarrow> index_of (xs ! i) xs = Some i"
proof (induction xs arbitrary: i)
  case Nil
  then show ?case by simp
next
  case (Cons x xs)
  then show ?case by (cases i) auto
qed

lemma b64_index_char: "v < 64 \<Longrightarrow> b64_index (b64_char v) = Some v"
  by (simp add: b64_index_def b64_char_def index_of_nth b64_alphabet_facts)

lemma b64_char_in: "v < 64 \<Longrightarrow> b64_char v \<in> set b64_alphabet"
  by (simp add: b64_char_def b64_alphabet_facts)

lemma b64_char_not_pad: "v < 64 \<Longrightarrow> b64_char v \<noteq> CHR ''=''"
  using b64_char_in b64_alphabet_facts(3) by metis

lemma a2b_data:
  "v < 64 \<Longrightarrow> a2b_base64 q l p out (b64_char v # rest) =
     (if q = 0 then a2b_base64 1 v 0 out rest
      else if q = 1 then a2b_base64 2 (v mod 16) 0 (out @ [char_of (l * 4 + v div 16)]) rest
      else if q = 2 then a2b_base64 3 (v mod 4) 0 (out @ [char_of (l * 16 + v div 4)]) rest
      else a2b_base64 0 0 0 (out @ [char_of (l * 64 + v)]) rest)"
  by (simp add: b64_index_char b64_char_not_pad)

lemma a2b_quad:
  assumes "s0 < 64" "s1 < 64" "s2 < 64" "s3 < 64"
  shows "a2b_base64 0 l p out (b64_char s0 # b64_char s1 # b64_char s2 # b64_char s3 # rest) =
         a2b_base64 0 0 0 (out @ [char_of (s0 * 4 + s1 div 16), char_of (s1 mod 16 * 16 + s2 div 4),
                                  char_of (s2 mod 4 * 64 + s3)]) rest"
  using assms by (simp add: a2b_data del: a2b_base64.simps)

lemma of_char_lt: "(of_char c :: nat) < 256"
  by (metis of_char_mod_256 mod_less_divisor zero_less_numeral)

lemma byte1: "a < 256 \<Longrightarrow> b < 256 \<Longrightarrow> (a div 4) * 4 + (a mod 4 * 16 + b div 16) div 16 = (a::nat)"
  by (simp add: div_add1_eq) 

lemma byte2: "a < 256 \<Longrightarrow> b < 256 \<Longrightarrow> c < 256 \<Longrightarrow> (a mod 4 * 16 + b div 16) mod 16 * 16 + (b mod 16 * 4 + c div 64) div 4 = (b::nat)"
  by (simp add: div_add1_eq mod_add_eq mod_mult2_eq)

lemma byte3: "b < 256 \<Longrightarrow> c < 256 \<Longrightarrow> (b mod 16 * 4 + c div 64) mod 4 * 64 + c mod 64 = (c::nat)"
  by (simp add: div_add1_eq mod_add_eq mod_mult2_eq)

lemma sextet_bounds:
  "a < 256 \<Longrightarrow> a div 4 < (64::nat)"
  "b < 256 \<Longrightarrow> a mod 4 * 16 + b div 16 < (64::nat)"
  "c < 256 \<Longrightarrow> b mod 16 * 4 + c div 64 < (64::nat)"
  "c mod 64 < (64::nat)"
  "a mod 4 * 16 < (64::nat)"
  "b mod 16 * 4 < (64::nat)"
  by auto

lemma a2b_pad2:
  "a2b_base64 2 l 0 out ''=='' = Inr out"
  by simp

lemma a2b_pad1:
  "a2b_base64 3 l 0 out ''='' = Inr out"
  by simp

lemma a2b_group:
  assumes "a < 256" "b < 256" "c < 256"
  shows "a2b_base64 0 l p out
           (b64_char (a div 4) # b64_char (a mod 4 * 16 + b div 16) #
            b64_char (b mod 16 * 4 + c div 64) # b64_char (c mod 64) # rest) =
         a2b_base64 0 0 0 (out @ [char_of a, char_of b, char_of c]) rest"
proof -
  have "a2b_base64 0 l p out
           (b64_char (a div 4) # b64_char (a mod 4 * 16 + b div 16) #
            b64_char (b mod 16 * 4 + c div 64) # b64_char (c mod 64) # rest) =
        a2b_base64 0 0 0
          (out @ [char_of (a div 4 * 4 + (a mod 4 * 16 + b div 16) div 16),
                  char_of ((a mod 4 * 16 + b div 16) mod 16 * 16 + (b mod 16 * 4 + c div 64) div 4),
                  char_of ((b mod 16 * 4 + c div 64) mod 4 * 64 + c mod 64)]) rest"
    using assms by (intro a2b_quad sextet_bounds)
  then show ?thesis
    using assms by (simp only: byte1 byte2 byte3)
qed

lemma a2b_tail2:
  assumes "a < 256" "b < 256"
  shows "a2b_base64 0 l p out
           [b64_char (a div 4), b64_char (a mod 4 * 16 + b div 16), b64_char (b mod 16 * 4),
            CHR ''=''] =
         Inr (out @ [char_of a, char_of b])"
proof -
  have c: "(0::nat) < 256" by simp
  have "a2b_base64 0 l p out
           [b64_char (a div 4), b64_char (a mod 4 * 16 + b div 16), b64_char (b mod 16 * 4),
            CHR ''=''] =
        a2b_base64 3 ((b mod 16 * 4) mod 4) 0
          (out @ [char_of (a div 4 * 4 + (a mod 4 * 16 + b div 16) div 16)]
               @ [char_of ((a mod 4 * 16 + b div 16) mod 16 * 16 + (b mod 16 * 4) div 4)]) ''=''"
    using assms by (simp add: a2b_data sextet_bounds del: a2b_base64.simps)
  also have "\<dots> = Inr (out @ [char_of (a div 4 * 4 + (a mod 4 * 16 + b div 16) div 16)]
               @ [char_of ((a mod 4 * 16 + b div 16) mod 16 * 16 + (b mod 16 * 4) div 4)])"
    by (rule a2b_pad1)
  finally show ?thesis
    using byte1 [OF assms] byte2 [OF assms c] by simp
qed

lemma a2b_tail1:
  assumes "a < 256"
  shows "a2b_base64 0 l p out [b64_char (a div 4), b64_char (a mod 4 * 16), CHR ''='', CHR ''=''] =
         Inr (out @ [char_of a])"
proof -
  have c: "(0::nat) < 256" by simp
  have "a2b_base64 0 l p out [b64_char (a div 4), b64_char (a mod 4 * 16), CHR ''='', CHR ''=''] =
        a2b_base64 2 ((a mod 4 * 16) mod 16) 0
          (out @ [char_of (a div 4 * 4 + (a mod 4 * 16) div 16)]) ''==''"
    using assms by (simp add: a2b_data sextet_bounds del: a2b_base64.simps)
  also have "\<dots> = Inr (out @ [char_of (a div 4 * 4 + (a mod 4 * 16) div 16)])"
    by (rule a2b_pad2)
  finally show ?thesis
    using byte1 [OF assms c] by simp
qed

lemma b64_roundtrip: "a2b_base64 0 l p out (b64encode B) = Inr (out @ B)"
proof (induction B arbitrary: l p out rule: b64encode.induct)
  case 1
  show ?case by simp
next
  case (2 x)
  show ?case
    using a2b_tail1 [OF of_char_lt, of l p out x] by (simp add: Let_def)
next
  case (3 x y)
  show ?case
    using a2b_tail2 [OF of_char_lt of_char_lt, of l p out x y] by (simp add: Let_def)
next
  case (4 x y z rest)
  show ?case
    using a2b_group [OF of_char_lt of_char_lt of_char_lt, of l p out x y z "b64encode rest"]
    by (simp add: Let_def 4)
qed

lemma b64encode_chars: "set (b64encode B) \<subseteq> set b64_alphabet \<union> {CHR ''=''}"
proof (induction B rule: b64encode.induct)
  case (4 x y z rest)
  have a: "(of_char x :: nat) < 256" "(of_char y :: nat) < 256" "(of_char z :: nat) < 256" by (rule of_char_lt)+
  then show ?case using 4 by (simp add: Let_def b64_char_in sextet_bounds)
qed (simp_all add: Let_def b64_char_in sextet_bounds of_char_lt)

section \<open>The text after the marker \<open>base64,\<close>\<close>

lemma split_sep_not_Nil: "split_sep sep cur s \<noteq> []"
  by (induction s arbitrary: cur) simp_all

lemma split_sep_absent: "\<not> contains s sep \<Longrightarrow> split_sep sep cur s = [rev cur @ s]"
  by (induction s arbitrary: cur) simp_all

lemma sep_no_overlap:
  assumes "startswith (pre @ sep @ rest) sep" and "pre \<noteq> []" and "borderless sep"
  shows "length sep \<le> length pre"
proof (rule ccontr)
  assume "\<not> length sep \<le> length pre"
  then have k: "length pre < length sep" by simp
  from assms(1) have t: "take (length sep) (pre @ sep @ rest) = sep"
    by (simp add: startswith_def)
  have "take (length sep) (pre @ sep @ rest) ! length pre = (pre @ sep @ rest) ! length pre"
    using k by (rule nth_take)
  also have "\<dots> = sep ! 0"
    using assms(3) by (simp add: nth_append borderless_def)
  finally have "sep ! length pre = sep ! 0"
    using t by simp
  then show False
    using k assms(2,3) by (auto simp: borderless_def)
qed

lemma split_sep_last:
  assumes "borderless sep" and "\<not> contains rest sep"
  shows "last (split_sep sep cur (pre @ sep @ rest)) = rest"
  using assms
proof (induction pre arbitrary: cur rule: length_induct)
  case (1 pre)
  have sep: "sep \<noteq> []" using 1(2) by (simp add: borderless_def)
  show ?case
  proof (cases pre)
    case Nil
    obtain c cs where cs: "sep = c # cs" using sep by (cases sep) auto
    have "split_sep sep cur (sep @ rest) = rev cur # split_sep sep [] rest"
      by (simp add: cs startswith_def)
    then show ?thesis
      using 1(3) Nil by (simp add: split_sep_absent)
  next
    case (Cons c pre')
    show ?thesis
    proof (cases "startswith (pre @ sep @ rest) sep")
      case True
      then have len: "length sep \<le> length pre"
        using sep_no_overlap Cons 1(2) by blast
      then have d: "drop (length sep - 1) (pre' @ sep @ rest) = drop (length sep - 1) pre' @ sep @ rest"
        using Cons by simp
      have "length (drop (length sep - 1) pre') < length pre"
        using Cons by simp
      then have "last (split_sep sep [] (drop (length sep - 1) pre' @ sep @ rest)) = rest"
        using 1 by blast
      moreover have "split_sep sep cur (pre @ sep @ rest) =
          rev cur # split_sep sep [] (drop (length sep - 1) pre' @ sep @ rest)"
        using True Cons d by simp
      ultimately show ?thesis
        by (simp add: split_sep_not_Nil)
    next
      case False
      then have "split_sep sep cur (pre @ sep @ rest) = split_sep sep (c # cur) (pre' @ sep @ rest)"
        using Cons by simp
      moreover have "last (split_sep sep (c # cur) (pre' @ sep @ rest)) = rest"
        using 1 Cons by simp
      ultimately show ?thesis by simp
    qed
  qed
qed

lemma borderless_marker: "borderless ''base64,''"
proof -
  have "''base64,'' ! k \<noteq> ''base64,'' ! 0" if "0 < k" "k < 7" for k :: nat
  proof -
    from that consider "k = 1" | "k = 2" | "k = 3" | "k = 4" | "k = 5" | "k = 6"
      by linarith
    then show ?thesis
      by cases simp_all
  qed
  then show ?thesis
    by (simp add: borderless_def)
qed

lemma after_base64_absent: "\<not> contains b ''base64,'' \<Longrightarrow> after_base64 b = b"
  using split_sep_absent [of b "''base64,''" "[]"] by (simp add: after_base64_def)

lemma after_base64_marker:
  "\<not> contains rest ''base64,'' \<Longrightarrow> after_base64 (pre @ ''base64,'' @ rest) = rest"
  unfolding after_base64_def using borderless_marker by (rule split_sep_last)

lemma contains_mem: "contains s p \<Longrightarrow> p \<noteq> [] \<Longrightarrow> set p \<subseteq> set s"
proof (induction s)
  case Nil
  then show ?case by simp
next
  case (Cons c cs)
  from Cons.prems(1) consider "startswith (c # cs) p" | "contains cs p" by auto
  then show ?case
  proof cases
    case 1
    then have "p = take (length p) (c # cs)" by (simp add: startswith_def)
    then show ?thesis by (metis set_take_subset)
  next
    case 2
    then show ?thesis using Cons by auto
  qed
qed

lemma no_comma_no_marker: "CHR '','' \<notin> set s \<Longrightarrow> \<not> contains s ''base64,''"
  using contains_mem [of s "''base64,''"] by auto

lemma str_encode_ascii: "list_all (\<lambda>c. (of_char c :: nat) < 128) s \<Longrightarrow> str_encode s = s"
  by (induction s) (simp_all add: str_encode_def encode_char_def)

section \<open>Create: notifications and pushes\<close>


lemma post_commit_error: "post_commit e r obj_id c w = (Inl err, w') \<Longrightarrow> w' = w \<and> err = StoreError"
  by (auto simp: post_commit_def Let_def split: if_splits)

lemma post_error_unchanged: "post e r data w = (Inl err, w') \<Longrightarrow> w' = w"
  by (auto simp: post_def split: option.splits sum.splits prod.splits dest: post_commit_error)

lemma post_commit_success:
  "post_commit e r obj_id c w = (Inr comment_id, w') \<Longrightarrow>
   commit_ok e \<and> comment_id = w_next_id w \<and>
   w' = w\<lparr>w_comments := (w_comments w)(comment_id \<mapsto> c),
          w_notifications := w_notifications w
            @ map (mention_notification r obj_id) (users_mentioned (w_users w) (c_text c)),
          w_next_id := Suc comment_id,
          w_events := w_events w @ [Committed]
            @ map (\<lambda>u. FlowPush (user_id u) ''skyportal/FETCH_NOTIFICATIONS'')
                (users_mentioned (w_users w) (c_text c))
            @ [PushAll ''skyportal/REFRESH_SOURCE'' (internal_key e obj_id)]\<rparr>"
  by (auto simp: post_commit_def Let_def split: if_splits)


lemma post_success:
  assumes "post e r data w = (Inr comment_id, w')"
  obtains obj_id comment_text groups attachment_bytes attachment_name where
    "pd_obj_id data = Some obj_id" "pd_text data = Some comment_text"
    "post_groups e r (pd_group_ids data) = Inr groups"
    "post_attachment (pd_attachment data) = Inr (attachment_bytes, attachment_name)"
    "post_commit e r obj_id
       \<lparr>c_text = comment_text, c_obj_id = obj_id, c_attachment_bytes = attachment_bytes,
        c_attachment_name = attachment_name, c_author = r_user_id r, c_groups = groups\<rparr> w =
     (Inr comment_id, w')"
  using assms unfolding post_def
  by (simp split: option.splits sum.splits prod.splits)

lemma users_mentioned_distinct:
  "distinct (map user_id directory) \<Longrightarrow> distinct (users_mentioned directory text)"
  by (simp add: users_mentioned_def distinct_map)

lemma users_mentioned_length:
  assumes "distinct (map user_id directory)"
  shows "length (users_mentioned directory text) = card (extractMentions_spec directory text)"
proof -
  have "card (set (users_mentioned directory text)) = length (users_mentioned directory text)"
    using assms by (intro distinct_card users_mentioned_distinct)
  then show ?thesis
    by (simp add: users_mentioned_set)
qed

lemma filter_user_push:
  "filter is_user_push (Committed # map (\<lambda>u. FlowPush (f u) a) us @ [PushAll b k]) =
   map (\<lambda>u. FlowPush (f u) a) us"
  by (induction us) (simp_all add: is_user_push_def)

lemma filter_broadcast:
  "filter is_broadcast (Committed # map (\<lambda>u. FlowPush (f u) a) us @ [PushAll b k]) = [PushAll b k]"
  by (induction us) (simp_all add: is_broadcast_def)


text \<open>
  C1: when a create request succeeds (its comment is committed) and its text mentions
  exactly \<open>k\<close> distinct existing users, the store gains exactly \<open>k\<close> notifications, one
  for each mentioned user, with a text that names the acting user and the object and a
  URL to the object; the events that follow the commit are exactly \<open>k\<close> pushes to users
  and one push to all. When the request fails, the commit's failure included, no event is
  emitted and nothing is stored.
\<close>

theorem post_notifies_mentioned_users:
  "(post e r data w = (Inr comment_id, w') \<and> pd_obj_id data = Some obj_id \<and>
    pd_text data = Some comment_text \<and> distinct (map user_id (w_users w)) \<longrightarrow>
    (\<exists>mentioned new_events.
       set mentioned = extractMentions_spec (w_users w) comment_text \<and>
       length mentioned = card (extractMentions_spec (w_users w) comment_text) \<and>
       w_comments w' comment_id \<noteq> None \<and>
       w_notifications w' = w_notifications w @
         map (\<lambda>u. \<lparr>n_user = u,
                    n_text = ''*@'' @ r_username r @ ''* mentioned you in a comment on *''
                      @ obj_id @ ''*'',
                    n_url = ''/source/'' @ obj_id\<rparr>) mentioned \<and>
       w_events w' = w_events w @ new_events \<and>
       new_events = Committed #
         map (\<lambda>u. FlowPush (user_id u) ''skyportal/FETCH_NOTIFICATIONS'') mentioned @
         [PushAll ''skyportal/REFRESH_SOURCE'' (internal_key e obj_id)] \<and>
       length (filter is_user_push new_events) = card (extractMentions_spec (w_users w) comment_text) \<and>
       length (filter is_broadcast new_events) = 1)) \<and>
   (post e r data w = (Inl err, w') \<longrightarrow>
      w_events w' = w_events w \<and> w_notifications w' = w_notifications w \<and>
      w_comments w' = w_comments w)"
proof (intro conjI impI)
  assume a: "post e r data w = (Inr comment_id, w') \<and> pd_obj_id data = Some obj_id \<and>
    pd_text data = Some comment_text \<and> distinct (map user_id (w_users w))"
  let ?m = "users_mentioned (w_users w) comment_text"
  let ?ev = "Committed # map (\<lambda>u. FlowPush (user_id u) ''skyportal/FETCH_NOTIFICATIONS'') ?m @
         [PushAll ''skyportal/REFRESH_SOURCE'' (internal_key e obj_id)]"
  from a obtain c where c: "post_commit e r obj_id c w = (Inr comment_id, w')" "c_text c = comment_text"
    by (auto elim!: post_success)
  from post_commit_success [OF c(1)]
  have w': "w' = w\<lparr>w_comments := (w_comments w)(comment_id \<mapsto> c),
          w_notifications := w_notifications w
            @ map (mention_notification r obj_id) ?m,
          w_next_id := Suc comment_id,
          w_events := w_events w @ [Committed]
            @ map (\<lambda>u. FlowPush (user_id u) ''skyportal/FETCH_NOTIFICATIONS'') ?m
            @ [PushAll ''skyportal/REFRESH_SOURCE'' (internal_key e obj_id)]\<rparr>"
    by (simp add: c(2))
  have len: "length ?m = card (extractMentions_spec (w_users w) comment_text)"
    using a by (simp add: users_mentioned_length)
  have 1: "set ?m = extractMentions_spec (w_users w) comment_text"
    by (rule users_mentioned_set)
  have 2: "w_comments w' comment_id \<noteq> None"
    by (simp add: w')
  have 3: "w_notifications w' = w_notifications w @
         map (\<lambda>u. \<lparr>n_user = u,
                    n_text = ''*@'' @ r_username r @ ''* mentioned you in a comment on *''
                      @ obj_id @ ''*'',
                    n_url = ''/source/'' @ obj_id\<rparr>) ?m"
    by (simp add: w' mention_notification_def)
  have 4: "w_events w' = w_events w @ ?ev"
    by (simp add: w')
  have 5: "length (filter is_user_push ?ev) = card (extractMentions_spec (w_users w) comment_text)"
    by (simp only: filter_user_push length_map len)
  have 6: "length (filter is_broadcast ?ev) = 1"
    by (simp only: filter_broadcast) simp
  show "\<exists>mentioned new_events.
       set mentioned = extractMentions_spec (w_users w) comment_text \<and>
       length mentioned = card (extractMentions_spec (w_users w) comment_text) \<and>
       w_comments w' comment_id \<noteq> None \<and>
       w_notifications w' = w_notifications w @
         map (\<lambda>u. \<lparr>n_user = u,
                    n_text = ''*@'' @ r_username r @ ''* mentioned you in a comment on *''
                      @ obj_id @ ''*'',
                    n_url = ''/source/'' @ obj_id\<rparr>) mentioned \<and>
       w_events w' = w_events w @ new_events \<and>
       new_events = Committed #
         map (\<lambda>u. FlowPush (user_id u) ''skyportal/FETCH_NOTIFICATIONS'') mentioned @
         [PushAll ''skyportal/REFRESH_SOURCE'' (internal_key e obj_id)] \<and>
       length (filter is_user_push new_events) = card (extractMentions_spec (w_users w) comment_text) \<and>
       length (filter is_broadcast new_events) = 1"
    using 1 len 2 3 4 5 6 by blast
next
  assume "post e r data w = (Inl err, w')"
  then have "w' = w" by (rule post_error_unchanged)
  then show "w_events w' = w_events w" "w_notifications w' = w_notifications w"
    "w_comments w' = w_comments w" by simp_all
qed


lemma mentioned_usernames_thanks:
  "mentioned_usernames ''thanks @bob, @bob and @nobody'' = [''bob'', ''bob'', ''nobody'']"
  by code_simp

lemma example_post_result:
  "post example_env alice example_post example_world =
     (Inr 1,
      example_world\<lparr>w_comments := (w_comments example_world)(1 \<mapsto>
          \<lparr>c_text = ''thanks @bob, @bob and @nobody'', c_obj_id = ''ZTF21abc'',
           c_attachment_bytes = None, c_attachment_name = JNull, c_author = 1,
           c_groups = [5, 7]\<rparr>),
        w_notifications :=
          [\<lparr>n_user = \<lparr>user_id = 2, username = ''bob''\<rparr>,
            n_text = ''*@alice* mentioned you in a comment on *ZTF21abc*'',
            n_url = ''/source/ZTF21abc''\<rparr>],
        w_next_id := 2,
        w_events := [Committed, FlowPush 2 ''skyportal/FETCH_NOTIFICATIONS'',
                     PushAll ''skyportal/REFRESH_SOURCE'' ''key:ZTF21abc'']\<rparr>)"
  by (simp add: post_def example_post_def example_env_def alice_def example_world_def
      post_groups_def post_attachment_def post_commit_def users_mentioned_def
      mentioned_usernames_thanks mention_notification_def)

lemma example_post_fails:
  "post failing_env alice example_post example_world = (Inl StoreError, example_world)"
  by (simp add: post_def example_post_def failing_env_def example_env_def alice_def
      post_groups_def post_attachment_def post_commit_def)

text \<open>The theorem \<open>post_notifies_mentioned_users\<close> at the example data.\<close>

theorem post_notifies_mentioned_users_witness:
  "post example_env alice example_post example_world =
     (Inr 1, snd (post example_env alice example_post example_world)) \<and>
   distinct (map user_id (w_users example_world)) \<and>
   card (extractMentions_spec (w_users example_world) ''thanks @bob, @bob and @nobody'') = 1 \<and>
   (\<exists>mentioned new_events.
       set mentioned = extractMentions_spec (w_users example_world) ''thanks @bob, @bob and @nobody'' \<and>
       length mentioned = 1 \<and>
       w_notifications (snd (post example_env alice example_post example_world)) =
         w_notifications example_world @
         map (\<lambda>u. \<lparr>n_user = u,
                    n_text = ''*@'' @ r_username alice @ ''* mentioned you in a comment on *''
                      @ ''ZTF21abc'' @ ''*'',
                    n_url = ''/source/'' @ ''ZTF21abc''\<rparr>) mentioned \<and>
       w_events (snd (post example_env alice example_post example_world)) =
         w_events example_world @ new_events \<and>
       length (filter is_user_push new_events) = 1 \<and>
       length (filter is_broadcast new_events) = 1) \<and>
   post failing_env alice example_post example_world = (Inl StoreError, example_world) \<and>
   w_events (snd (post failing_env alice example_post example_world)) = w_events example_world"
proof -
  let ?t = "''thanks @bob, @bob and @nobody''"
  have h1: "post example_env alice example_post example_world =
     (Inr 1, snd (post example_env alice example_post example_world))"
    by (simp add: example_post_result)
  have h2: "pd_obj_id example_post = Some ''ZTF21abc''" "pd_text example_post = Some ?t"
    by (simp_all add: example_post_def)
  have h3: "distinct (map user_id (w_users example_world))"
    by (simp add: example_world_def)
  have k: "card (extractMentions_spec (w_users example_world) ?t) = 1"
    unfolding users_mentioned_set [symmetric]
    by (simp add: users_mentioned_def mentioned_usernames_thanks example_world_def)
  have h4: "post failing_env alice example_post example_world =
     (Inl StoreError, snd (post failing_env alice example_post example_world))"
    by (simp add: example_post_fails)
  from post_notifies_mentioned_users [of example_env alice example_post example_world 1
      "snd (post example_env alice example_post example_world)" "''ZTF21abc''" ?t] h1 h2 h3
  have a: "\<exists>mentioned new_events.
       set mentioned = extractMentions_spec (w_users example_world) ?t \<and>
       length mentioned = 1 \<and>
       w_notifications (snd (post example_env alice example_post example_world)) =
         w_notifications example_world @
         map (\<lambda>u. \<lparr>n_user = u,
                    n_text = ''*@'' @ r_username alice @ ''* mentioned you in a comment on *''
                      @ ''ZTF21abc'' @ ''*'',
                    n_url = ''/source/'' @ ''ZTF21abc''\<rparr>) mentioned \<and>
       w_events (snd (post example_env alice example_post example_world)) =
         w_events example_world @ new_events \<and>
       length (filter is_user_push new_events) = 1 \<and>
       length (filter is_broadcast new_events) = 1"
    unfolding k by blast
  from post_notifies_mentioned_users [where e = failing_env and r = alice
      and data = example_post and w = example_world and err = StoreError
      and w' = "snd (post failing_env alice example_post example_world)"] h4
  have b: "w_events (snd (post failing_env alice example_post example_world)) =
      w_events example_world"
    by blast
  show ?thesis
    using h1 h3 k a b example_post_fails by simp
qed

section \<open>Create: required fields and the attachment\<close>


text \<open>
  C4: a create request without \<open>obj_id\<close> fails with \<open>MissingField\<close> and stores nothing.
  A create request with \<open>obj_id\<close> and without text does not: the handler has no check of
  the text, and \<open>users_mentioned(None)\<close> raises \<open>AttributeError\<close>; nothing is stored.
\<close>

theorem post_without_text_raises:
  "post example_env alice post_without_text example_world =
     (Inl (Unhandled AttributeError), example_world) \<and>
   post example_env alice post_without_obj_id example_world = (Inl MissingField, example_world)"
  by (simp add: post_def post_without_text_def post_without_obj_id_def example_env_def
      alice_def post_groups_def post_attachment_def)

lemma post_attachment_malformed_iff:
  "post_attachment attachment = Inl MalformedAttachment \<longleftrightarrow> malformed_attachment attachment"
proof (cases attachment)
  case None
  then show ?thesis by (simp add: post_attachment_def malformed_attachment_def)
next
  case (Some j)
  show ?thesis
  proof (cases j)
    case (JObj items)
    have "k \<in> fst ` set items \<longleftrightarrow> map_of items k \<noteq> None" for k
      by (simp add: map_of_eq_None_iff)
    then show ?thesis
      using Some JObj
      by (simp add: post_attachment_def malformed_attachment_def is_object_def has_field_def
          split: option.splits json.splits)
  qed (simp_all add: Some post_attachment_def malformed_attachment_def is_object_def)
qed

lemma post_malformed_iff:
  "fst (post e r data w) = Inl MalformedAttachment \<longleftrightarrow>
     (\<exists>obj_id groups. pd_obj_id data = Some obj_id \<and>
        post_groups e r (pd_group_ids data) = Inr groups) \<and>
     malformed_attachment (pd_attachment data)"
proof -
  have g: "post_groups e r ids \<noteq> Inl MalformedAttachment" for ids
    by (simp add: post_groups_def Group_get_if_accessible_by_def split: option.splits)
  have c: "fst (post_commit e r obj_id c w) \<noteq> Inl MalformedAttachment" for obj_id c
    by (simp add: post_commit_def Let_def)
  show ?thesis
    unfolding post_attachment_malformed_iff [symmetric]
    using g [of "pd_group_ids data"] c
    by (auto simp: post_def split: option.splits sum.splits prod.splits)
qed


lemma post_stores_comment:
  assumes "post e r data w = (Inr comment_id, w')"
  shows "\<exists>obj_id comment_text groups attachment_bytes attachment_name.
     pd_obj_id data = Some obj_id \<and> pd_text data = Some comment_text \<and>
     post_groups e r (pd_group_ids data) = Inr groups \<and>
     post_attachment (pd_attachment data) = Inr (attachment_bytes, attachment_name) \<and>
     commit_ok e \<and>
     w_comments w' comment_id =
       Some \<lparr>c_text = comment_text, c_obj_id = obj_id, c_attachment_bytes = attachment_bytes,
             c_attachment_name = attachment_name, c_author = r_user_id r, c_groups = groups\<rparr>"
proof -
  from assms obtain obj_id comment_text groups attachment_bytes attachment_name where
    a: "pd_obj_id data = Some obj_id" "pd_text data = Some comment_text"
    "post_groups e r (pd_group_ids data) = Inr groups"
    "post_attachment (pd_attachment data) = Inr (attachment_bytes, attachment_name)"
    "post_commit e r obj_id
       \<lparr>c_text = comment_text, c_obj_id = obj_id, c_attachment_bytes = attachment_bytes,
        c_attachment_name = attachment_name, c_author = r_user_id r, c_groups = groups\<rparr> w =
     (Inr comment_id, w')"
    by (rule post_success)
  from post_commit_success [OF a(5)]
  have "commit_ok e" and "w_comments w' comment_id =
       Some \<lparr>c_text = comment_text, c_obj_id = obj_id, c_attachment_bytes = attachment_bytes,
             c_attachment_name = attachment_name, c_author = r_user_id r, c_groups = groups\<rparr>"
    by simp_all
  with a(1-4) show ?thesis by blast
qed

lemma post_attachment_wellformed:
  "map_of items ''body'' = Some (JStr body) \<Longrightarrow> map_of items ''name'' = Some name \<Longrightarrow>
   post_attachment (Some (JObj items)) = Inr (Some (str_encode (after_base64 body)), name)"
  by (simp add: post_attachment_def)

text \<open>
  C7: a create request fails with \<open>MalformedAttachment\<close> exactly when it reaches the
  decoding of the attachment (the \<open>obj_id\<close> is present and the groups resolve) and the
  attachment field is present and is not an object, or lacks \<open>body\<close>, or lacks \<open>name\<close>;
  on that failure nothing is stored. When the attachment is an object with a name and a
  body that is text, and the request succeeds, the comment stored has the name and, as
  bytes, the text of the body behind \<open>base64,\<close>: the body itself when it does not
  contain \<open>base64,\<close>, and \<open>rest\<close> for a body \<open>pre @ ''base64,'' @ rest\<close> when \<open>rest\<close> does
  not contain it; ASCII text is stored as it is.
\<close>

theorem post_attachment_decoding:
  "(fst (post e r data w) = Inl MalformedAttachment \<longleftrightarrow>
      (\<exists>obj_id groups. pd_obj_id data = Some obj_id \<and>
         post_groups e r (pd_group_ids data) = Inr groups) \<and>
      malformed_attachment (pd_attachment data)) \<and>
   (fst (post e r data w) = Inl MalformedAttachment \<longrightarrow> snd (post e r data w) = w) \<and>
   (post e r data w = (Inr comment_id, w') \<and> pd_attachment data = Some (JObj items) \<and>
    map_of items ''body'' = Some (JStr body) \<and> map_of items ''name'' = Some name \<longrightarrow>
      (\<exists>c. w_comments w' comment_id = Some c \<and>
           c_attachment_bytes c = Some (str_encode (after_base64 body)) \<and>
           c_attachment_name c = name)) \<and>
   (\<not> contains body ''base64,'' \<longrightarrow> after_base64 body = body) \<and>
   (\<not> contains rest ''base64,'' \<longrightarrow> after_base64 (pre @ ''base64,'' @ rest) = rest) \<and>
   (list_all (\<lambda>c. (of_char c :: nat) < 128) s \<longrightarrow> str_encode s = s)"
proof (intro conjI impI)
  show "fst (post e r data w) = Inl MalformedAttachment \<longleftrightarrow>
      (\<exists>obj_id groups. pd_obj_id data = Some obj_id \<and>
         post_groups e r (pd_group_ids data) = Inr groups) \<and>
      malformed_attachment (pd_attachment data)"
    by (rule post_malformed_iff)
next
  assume "fst (post e r data w) = Inl MalformedAttachment"
  then have "post e r data w = (Inl MalformedAttachment, snd (post e r data w))"
    by (metis prod.collapse)
  then show "snd (post e r data w) = w"
    by (rule post_error_unchanged)
next
  assume a: "post e r data w = (Inr comment_id, w') \<and> pd_attachment data = Some (JObj items) \<and>
    map_of items ''body'' = Some (JStr body) \<and> map_of items ''name'' = Some name"
  then have "post_attachment (pd_attachment data) = Inr (Some (str_encode (after_base64 body)), name)"
    by (simp add: post_attachment_wellformed)
  with post_stores_comment [of e r data w comment_id w'] a
  show "\<exists>c. w_comments w' comment_id = Some c \<and>
           c_attachment_bytes c = Some (str_encode (after_base64 body)) \<and>
           c_attachment_name c = name"
    by auto
next
  assume "\<not> contains body ''base64,''"
  then show "after_base64 body = body" by (rule after_base64_absent)
next
  assume "\<not> contains rest ''base64,''"
  then show "after_base64 (pre @ ''base64,'' @ rest) = rest" by (rule after_base64_marker)
next
  assume "list_all (\<lambda>c. (of_char c :: nat) < 128) s"
  then show "str_encode s = s" by (rule str_encode_ascii)
qed


lemma mentioned_usernames_file: "mentioned_usernames ''see the file'' = []"
  by code_simp

lemma after_base64_example: "after_base64 ''data:text/plain;base64,aGVsbG8='' = ''aGVsbG8=''"
  by code_simp

lemma str_encode_example: "str_encode ''aGVsbG8='' = ''aGVsbG8=''"
  by code_simp

lemma post_with_attachment_result:
  "post example_env alice post_with_attachment example_world =
     (Inr 1,
      example_world\<lparr>w_comments := (w_comments example_world)(1 \<mapsto>
          \<lparr>c_text = ''see the file'', c_obj_id = ''ZTF21abc'',
           c_attachment_bytes = Some ''aGVsbG8='', c_attachment_name = JStr ''hello.txt'',
           c_author = 1, c_groups = [7]\<rparr>),
        w_notifications := [],
        w_next_id := 2,
        w_events := [Committed, PushAll ''skyportal/REFRESH_SOURCE'' ''key:ZTF21abc'']\<rparr>)"
  by (simp add: post_def post_with_attachment_def example_attachment_def example_env_def alice_def
      example_world_def post_groups_def Group_get_if_accessible_by_def post_attachment_def
      post_commit_def users_mentioned_def mentioned_usernames_file after_base64_example
      str_encode_example)

lemma post_malformed_result:
  "post example_env alice post_malformed example_world = (Inl MalformedAttachment, example_world)"
  by (simp add: post_def post_malformed_def example_env_def alice_def post_groups_def
      post_attachment_def)

text \<open>The theorem \<open>post_attachment_decoding\<close> at the example data.\<close>

theorem post_attachment_decoding_witness:
  "fst (post example_env alice post_malformed example_world) = Inl MalformedAttachment \<and>
   malformed_attachment (pd_attachment post_malformed) \<and>
   snd (post example_env alice post_malformed example_world) = example_world \<and>
   post example_env alice post_with_attachment example_world =
     (Inr 1, snd (post example_env alice post_with_attachment example_world)) \<and>
   (\<exists>c. w_comments (snd (post example_env alice post_with_attachment example_world)) 1 = Some c \<and>
        c_attachment_bytes c = Some ''aGVsbG8='' \<and> c_attachment_name c = JStr ''hello.txt'') \<and>
   \<not> contains ''aGVsbG8='' ''base64,'' \<and>
   after_base64 ''aGVsbG8='' = ''aGVsbG8='' \<and>
   after_base64 (''data:text/plain;'' @ ''base64,'' @ ''aGVsbG8='') = ''aGVsbG8='' \<and>
   list_all (\<lambda>c. (of_char c :: nat) < 128) ''aGVsbG8='' \<and>
   str_encode ''aGVsbG8='' = ''aGVsbG8=''"
proof -
  have m: "fst (post example_env alice post_malformed example_world) = Inl MalformedAttachment"
    by (simp add: post_malformed_result)
  have s: "post example_env alice post_with_attachment example_world =
     (Inr 1, snd (post example_env alice post_with_attachment example_world))"
    by (simp add: post_with_attachment_result)
  have f: "pd_attachment post_with_attachment =
      Some (JObj [(''body'', JStr ''data:text/plain;base64,aGVsbG8=''), (''name'', JStr ''hello.txt'')])"
    "map_of [(''body'', JStr ''data:text/plain;base64,aGVsbG8=''), (''name'', JStr ''hello.txt'')]
       ''body'' = Some (JStr ''data:text/plain;base64,aGVsbG8='')"
    "map_of [(''body'', JStr ''data:text/plain;base64,aGVsbG8=''), (''name'', JStr ''hello.txt'')]
       ''name'' = Some (JStr ''hello.txt'')"
    by (simp_all add: post_with_attachment_def example_attachment_def)
  have n: "\<not> contains ''aGVsbG8='' ''base64,''"
    by (simp add: startswith_def)
  have a: "list_all (\<lambda>c. (of_char c :: nat) < 128) ''aGVsbG8=''"
    by simp
  note t1 = post_attachment_decoding [where e = example_env and r = alice and data = post_malformed
      and w = example_world and body = "''aGVsbG8=''" and rest = "''aGVsbG8=''"
      and pre = "''data:text/plain;''" and s = "''aGVsbG8=''"]
  note t2 = post_attachment_decoding [where e = example_env and r = alice and data = post_with_attachment
      and w = example_world and comment_id = 1
      and w' = "snd (post example_env alice post_with_attachment example_world)"
      and items = "[(''body'', JStr ''data:text/plain;base64,aGVsbG8=''), (''name'', JStr ''hello.txt'')]"
      and body = "''data:text/plain;base64,aGVsbG8=''" and name = "JStr ''hello.txt''"]
  have 1: "malformed_attachment (pd_attachment post_malformed)"
    using t1 m by blast
  have 2: "snd (post example_env alice post_malformed example_world) = example_world"
    using t1 m by blast
  have 3: "\<exists>c. w_comments (snd (post example_env alice post_with_attachment example_world)) 1 = Some c \<and>
        c_attachment_bytes c = Some (str_encode (after_base64 ''data:text/plain;base64,aGVsbG8='')) \<and>
        c_attachment_name c = JStr ''hello.txt''"
    using t2 s f by blast
  have 4: "after_base64 ''aGVsbG8='' = ''aGVsbG8=''"
    using t1 n by blast
  have 5: "after_base64 (''data:text/plain;'' @ ''base64,'' @ ''aGVsbG8='') = ''aGVsbG8=''"
    using t1 n by blast
  have 6: "str_encode ''aGVsbG8='' = ''aGVsbG8=''"
    using t1 a by blast
  from 3 have c3: "\<exists>c. w_comments (snd (post example_env alice post_with_attachment example_world)) 1 = Some c \<and>
        c_attachment_bytes c = Some ''aGVsbG8='' \<and> c_attachment_name c = JStr ''hello.txt''"
    by (simp only: after_base64_example str_encode_example)
  show ?thesis
    using m 1 2 s c3 n 4 5 a 6 by (intro conjI)
qed

section \<open>Update: the attachment's joint nullability\<close>


lemma put_error_unchanged: "put e r comment_id data w = (Inl err, w') \<Longrightarrow> w' = w"
  unfolding put_def Let_def
  by (simp split: sum.splits if_splits)

lemma put_success:
  assumes "put e r comment_id data w = (Inr u, w')"
  obtains c0 c1 c' where
    "Comment_get_if_accessible_by e r Update comment_id w = Inr c0"
    "schema_load e data c0 = Inr c1"
    "(c_attachment_bytes (put_attachment data c1) = None) =
       (c_attachment_name (put_attachment data c1) = JNull)"
    "put_groups e r (ud_group_ids data) (put_attachment data c1) = Inr c'"
    "commit_ok e"
    "w' = w\<lparr>w_comments := (w_comments w)(comment_id \<mapsto> c'),
           w_events := w_events w
             @ [Committed, PushAll ''skyportal/REFRESH_SOURCE'' (internal_key e (c_obj_id c'))]\<rparr>"
  using assms unfolding put_def Let_def
  by (simp split: sum.splits if_splits)

lemma Comment_get_Inr:
  "Comment_get_if_accessible_by e r m comment_id w = Inr c \<longleftrightarrow>
     w_comments w comment_id = Some c \<and> comment_accessible e r m c"
  by (auto simp: Comment_get_if_accessible_by_def getIfAccessible_def split: option.splits)

lemma schema_load_Inr:
  "schema_load e data c = Inr c1 \<longleftrightarrow>
     schema_ok e data \<and>
     c1 = c\<lparr>c_text := (case ud_text data of None \<Rightarrow> c_text c | Some t \<Rightarrow> t),
            c_attachment_name :=
              (case ud_attachment_name data of None \<Rightarrow> c_attachment_name c | Some n \<Rightarrow> n)\<rparr>"
  by (auto simp: schema_load_def)

lemma put_attachment_nulls:
  "schema_load e data c = Inr c1 \<Longrightarrow>
     (c_attachment_bytes (put_attachment data c1) = None) = put_bytes_is_none c data \<and>
     (c_attachment_name (put_attachment data c1) = JNull) = resulting_name_null c data"
  by (auto simp: schema_load_Inr put_attachment_def pop_attachment_bytes_def put_bytes_is_none_def
      resulting_name_null_def split: option.splits)

lemma put_groups_not_consistency:
  "put_groups e r ids c \<noteq> Inl AttachmentConsistencyError"
  by (simp add: put_groups_def Group_get_if_accessible_by_def split: option.splits)

lemma put_consistency_iff:
  assumes "Comment_get_if_accessible_by e r Update comment_id w = Inr c" and "schema_ok e data"
  shows "fst (put e r comment_id data w) = Inl AttachmentConsistencyError \<longleftrightarrow>
     put_bytes_is_none c data \<noteq> resulting_name_null c data"
proof -
  obtain c1 where c1: "schema_load e data c = Inr c1"
    using assms(2) by (simp add: schema_load_def)
  note n = put_attachment_nulls [OF c1]
  show ?thesis
    using assms(1) c1 n put_groups_not_consistency [of e r "ud_group_ids data" "put_attachment data c1"]
    unfolding put_def Let_def
    by (auto split: sum.splits)
qed


lemma example_comment_update:
  "Comment_get_if_accessible_by example_env alice Update 0 example_world = Inr example_comment"
  by (simp add: Comment_get_Inr example_world_def example_env_def alice_def example_comment_def)

lemma comment_with_attachment_update:
  "Comment_get_if_accessible_by example_env alice Update 1 world_with_attachment =
     Inr comment_with_attachment"
  by (simp add: Comment_get_Inr world_with_attachment_def example_env_def alice_def
      comment_with_attachment_def)

lemma put_name_only_result:
  "put example_env alice 0 put_name_only example_world =
     (Inl AttachmentConsistencyError, example_world)"
  unfolding put_def example_comment_update
  by (simp add: schema_load_def put_attachment_def pop_attachment_bytes_def put_name_only_def
      example_env_def example_comment_def)

lemma put_name_and_bytes_result:
  "fst (put example_env alice 0 put_name_and_bytes example_world) = Inr ()"
  unfolding put_def example_comment_update
  by (simp add: schema_load_def put_attachment_def pop_attachment_bytes_def put_groups_def
      put_name_and_bytes_def example_env_def example_comment_def)

lemma put_clear_attachment_result:
  "put example_env alice 1 put_clear_attachment world_with_attachment =
     (Inl AttachmentConsistencyError, world_with_attachment)"
  unfolding put_def comment_with_attachment_update
  by (simp add: schema_load_def put_attachment_def pop_attachment_bytes_def
      put_clear_attachment_def example_env_def comment_with_attachment_def)

text \<open>
  C3: the two updates the claim names behave as it says: on a comment without
  attachment, setting the name alone fails with \<open>AttachmentConsistencyError\<close> and stores
  nothing, and setting name and bytes together succeeds. But the check is not against
  the comment's state with the update applied: \<open>put\<close> drops a null for the bytes, so an
  update that sets name and bytes to null on a comment with an attachment, whose
  resulting name and bytes are both null, fails with \<open>AttachmentConsistencyError\<close>.
\<close>

theorem put_cannot_clear_attachment:
  "put example_env alice 0 put_name_only example_world =
     (Inl AttachmentConsistencyError, example_world) \<and>
   fst (put example_env alice 0 put_name_and_bytes example_world) = Inr () \<and>
   w_comments world_with_attachment 1 = Some comment_with_attachment \<and>
   resulting_name_null comment_with_attachment put_clear_attachment \<and>
   resulting_bytes_null comment_with_attachment put_clear_attachment \<and>
   put example_env alice 1 put_clear_attachment world_with_attachment =
     (Inl AttachmentConsistencyError, world_with_attachment)"
proof (intro conjI)
  show "put example_env alice 0 put_name_only example_world =
     (Inl AttachmentConsistencyError, example_world)"
    by (rule put_name_only_result)
  show "fst (put example_env alice 0 put_name_and_bytes example_world) = Inr ()"
    by (rule put_name_and_bytes_result)
  show "w_comments world_with_attachment 1 = Some comment_with_attachment"
    by (simp add: world_with_attachment_def)
  show "resulting_name_null comment_with_attachment put_clear_attachment"
    by (simp add: resulting_name_null_def put_clear_attachment_def)
  show "resulting_bytes_null comment_with_attachment put_clear_attachment"
    by (simp add: resulting_bytes_null_def put_clear_attachment_def)
  show "put example_env alice 1 put_clear_attachment world_with_attachment =
     (Inl AttachmentConsistencyError, world_with_attachment)"
    by (rule put_clear_attachment_result)
qed

section \<open>The groups of a comment\<close>


lemma post_groups_Inr:
  "post_groups e r group_ids = Inr groups \<longleftrightarrow>
     (case group_ids of
        None \<Rightarrow> groups = r_accessible_groups r
      | Some ids \<Rightarrow>
          if ids = [] then groups = r_accessible_groups r
          else list_all (group_accessible e r) ids \<and> groups = ids)"
  by (auto simp: post_groups_def Group_get_if_accessible_by_def split: option.splits)

lemma post_groups_denied:
  "\<not> list_all (group_accessible e r) ids \<Longrightarrow> post_groups e r (Some ids) = Inl AccessDenied"
  by (auto simp: post_groups_def Group_get_if_accessible_by_def)

lemma put_groups_Inr:
  "put_groups e r group_ids c = Inr c' \<longleftrightarrow>
     (case group_ids of
        None \<Rightarrow> c' = c
      | Some ids \<Rightarrow> list_all (group_accessible e r) ids \<and> c' = c\<lparr>c_groups := ids\<rparr>)"
  by (auto simp: put_groups_def Group_get_if_accessible_by_def split: option.splits)

lemma put_groups_denied:
  "\<not> list_all (group_accessible e r) ids \<Longrightarrow> put_groups e r (Some ids) c = Inl AccessDenied"
  by (simp add: put_groups_def Group_get_if_accessible_by_def)

lemma post_stored_groups:
  assumes "post e r data w = (Inr comment_id, w')"
  shows "\<exists>c groups. w_comments w' comment_id = Some c \<and> c_groups c = groups \<and>
           post_groups e r (pd_group_ids data) = Inr groups"
  using post_stores_comment [OF assms] by auto

lemma put_stored_groups:
  assumes "put e r comment_id data w = (Inr u, w')"
  shows "\<exists>c0 c'. w_comments w comment_id = Some c0 \<and> w_comments w' comment_id = Some c' \<and>
           (\<exists>c. c_groups c = c_groups c0 \<and> put_groups e r (ud_group_ids data) c = Inr c')"
proof -
  from assms obtain c0 c1 c' where a:
    "Comment_get_if_accessible_by e r Update comment_id w = Inr c0"
    "schema_load e data c0 = Inr c1"
    "put_groups e r (ud_group_ids data) (put_attachment data c1) = Inr c'"
    "w' = w\<lparr>w_comments := (w_comments w)(comment_id \<mapsto> c'),
           w_events := w_events w
             @ [Committed, PushAll ''skyportal/REFRESH_SOURCE'' (internal_key e (c_obj_id c'))]\<rparr>"
    by (rule put_success)
  have 1: "w_comments w comment_id = Some c0"
    using a(1) by (simp add: Comment_get_Inr)
  have 2: "w_comments w' comment_id = Some c'"
    by (simp add: a(4))
  have 3: "c_groups (put_attachment data c1) = c_groups c0"
    using a(2) by (auto simp: schema_load_Inr put_attachment_def pop_attachment_bytes_def split: option.splits)
  show ?thesis
    using 1 2 3 a(3) by blast
qed

lemma post_denied:
  assumes "pd_group_ids data = Some ids" and "\<not> list_all (group_accessible e r) ids"
  shows "\<exists>err. post e r data w = (Inl err, w)"
    and "pd_obj_id data = Some obj_id \<Longrightarrow> post e r data w = (Inl AccessDenied, w)"
  using assms post_groups_denied [OF assms(2)]
  by (simp_all add: post_def split: option.splits)

lemma put_denied:
  assumes "ud_group_ids data = Some ids" and "\<not> list_all (group_accessible e r) ids"
  shows "\<exists>err. put e r comment_id data w = (Inl err, w)"
    and "Comment_get_if_accessible_by e r Update comment_id w = Inr c \<Longrightarrow> schema_ok e data \<Longrightarrow>
         put_bytes_is_none c data = resulting_name_null c data \<Longrightarrow>
         put e r comment_id data w = (Inl AccessDenied, w)"
proof -
  show "\<exists>err. put e r comment_id data w = (Inl err, w)"
    using assms(1) put_groups_denied [OF assms(2)]
    unfolding put_def Let_def by (simp split: sum.splits)
next
  assume a: "Comment_get_if_accessible_by e r Update comment_id w = Inr c" "schema_ok e data"
    "put_bytes_is_none c data = resulting_name_null c data"
  obtain c1 where c1: "schema_load e data c = Inr c1"
    using a(2) by (simp add: schema_load_def)
  show "put e r comment_id data w = (Inl AccessDenied, w)"
    using a c1 put_attachment_nulls [OF c1] assms(1) put_groups_denied [OF assms(2)]
    unfolding put_def Let_def by simp
qed


text \<open>
  C5, as the code has it: on a create request that succeeds, the comment's groups are the
  requester's accessible groups when the list of group ids is absent or empty, and the
  list itself when it is not empty, all of its ids being accessible. On an update that
  succeeds, an absent list leaves the comment's groups as they were, and a list that is
  not empty becomes the comment's groups, all of its ids being accessible. A list with an
  id that is not accessible fails the request, with \<open>AccessDenied\<close> when the request
  reaches the resolution of the groups, and the store is unchanged.
\<close>

theorem visibility_resolution:
  "(post e r data w = (Inr comment_id, w') \<and>
    (pd_group_ids data = None \<or> pd_group_ids data = Some []) \<longrightarrow>
      map_option c_groups (w_comments w' comment_id) = Some (r_accessible_groups r)) \<and>
   (post e r data w = (Inr comment_id, w') \<and> pd_group_ids data = Some ids \<and> ids \<noteq> [] \<longrightarrow>
      list_all (group_accessible e r) ids \<and>
      map_option c_groups (w_comments w' comment_id) = Some ids) \<and>
   (pd_group_ids data = Some ids \<and> \<not> list_all (group_accessible e r) ids \<longrightarrow>
      (\<exists>err. post e r data w = (Inl err, w))) \<and>
   (pd_obj_id data = Some obj_id \<and> pd_group_ids data = Some ids \<and>
    \<not> list_all (group_accessible e r) ids \<longrightarrow>
      post e r data w = (Inl AccessDenied, w)) \<and>
   (put e r comment_id update w = (Inr (), w') \<and> ud_group_ids update = None \<longrightarrow>
      w_comments w comment_id \<noteq> None \<and>
      map_option c_groups (w_comments w' comment_id) =
        map_option c_groups (w_comments w comment_id)) \<and>
   (put e r comment_id update w = (Inr (), w') \<and> ud_group_ids update = Some ids \<and> ids \<noteq> [] \<longrightarrow>
      list_all (group_accessible e r) ids \<and>
      map_option c_groups (w_comments w' comment_id) = Some ids) \<and>
   (ud_group_ids update = Some ids \<and> \<not> list_all (group_accessible e r) ids \<longrightarrow>
      (\<exists>err. put e r comment_id update w = (Inl err, w))) \<and>
   (Comment_get_if_accessible_by e r Update comment_id w = Inr c \<and> schema_ok e update \<and>
    put_bytes_is_none c update = resulting_name_null c update \<and>
    ud_group_ids update = Some ids \<and> \<not> list_all (group_accessible e r) ids \<longrightarrow>
      put e r comment_id update w = (Inl AccessDenied, w))"
proof (intro conjI impI)
  assume a: "post e r data w = (Inr comment_id, w') \<and>
    (pd_group_ids data = None \<or> pd_group_ids data = Some [])"
  with post_stored_groups [of e r data w comment_id w']
  show "map_option c_groups (w_comments w' comment_id) = Some (r_accessible_groups r)"
    by (auto simp: post_groups_Inr)
next
  assume a: "post e r data w = (Inr comment_id, w') \<and> pd_group_ids data = Some ids \<and> ids \<noteq> []"
  with post_stored_groups [of e r data w comment_id w']
  show "list_all (group_accessible e r) ids"
    and "map_option c_groups (w_comments w' comment_id) = Some ids"
    by (auto simp: post_groups_Inr)
next
  assume "pd_group_ids data = Some ids \<and> \<not> list_all (group_accessible e r) ids"
  then show "\<exists>err. post e r data w = (Inl err, w)"
    using post_denied(1) by blast
next
  assume "pd_obj_id data = Some obj_id \<and> pd_group_ids data = Some ids \<and>
    \<not> list_all (group_accessible e r) ids"
  then show "post e r data w = (Inl AccessDenied, w)"
    using post_denied(2) by blast
next
  assume a: "put e r comment_id update w = (Inr (), w') \<and> ud_group_ids update = None"
  with put_stored_groups [of e r comment_id update w "()" w']
  show "w_comments w comment_id \<noteq> None"
    and "map_option c_groups (w_comments w' comment_id) =
        map_option c_groups (w_comments w comment_id)"
    by (auto simp: put_groups_Inr)
next
  assume a: "put e r comment_id update w = (Inr (), w') \<and> ud_group_ids update = Some ids \<and> ids \<noteq> []"
  with put_stored_groups [of e r comment_id update w "()" w']
  show "list_all (group_accessible e r) ids"
    and "map_option c_groups (w_comments w' comment_id) = Some ids"
    by (auto simp: put_groups_Inr)
next
  assume "ud_group_ids update = Some ids \<and> \<not> list_all (group_accessible e r) ids"
  then show "\<exists>err. put e r comment_id update w = (Inl err, w)"
    using put_denied(1) by blast
next
  assume "Comment_get_if_accessible_by e r Update comment_id w = Inr c \<and> schema_ok e update \<and>
    put_bytes_is_none c update = resulting_name_null c update \<and>
    ud_group_ids update = Some ids \<and> \<not> list_all (group_accessible e r) ids"
  then show "put e r comment_id update w = (Inl AccessDenied, w)"
    using put_denied(2) by blast
qed

lemma put_text_only_result:
  "put example_env alice 0 put_text_only example_world =
     (Inr (),
      example_world\<lparr>w_comments := (w_comments example_world)(0 \<mapsto>
          example_comment\<lparr>c_text := ''second light''\<rparr>),
        w_events := [Committed, PushAll ''skyportal/REFRESH_SOURCE'' ''key:ZTF21abc'']\<rparr>)"
  unfolding put_def example_comment_update
  by (simp add: schema_load_def put_attachment_def pop_attachment_bytes_def put_groups_def
      put_text_only_def example_env_def example_comment_def example_world_def)

text \<open>
  Against C5 as the specification states it: an update without a list of group ids
  leaves the comment's groups, here group 5, and does not set them to the requester's
  accessible groups, here 5 and 7.
\<close>

theorem put_absent_groups_counterexample:
  "ud_group_ids put_text_only = None \<and>
   put example_env alice 0 put_text_only example_world =
     (Inr (), snd (put example_env alice 0 put_text_only example_world)) \<and>
   map_option c_groups (w_comments (snd (put example_env alice 0 put_text_only example_world)) 0) =
     Some [5] \<and>
   r_accessible_groups alice = [5, 7] \<and>
   set [5 :: nat] \<noteq> set (r_accessible_groups alice)"
  by (simp add: put_text_only_result)
    (simp add: put_text_only_def example_comment_def alice_def)


lemma put_group_7_result:
  "put example_env alice 0 put_group_7 example_world =
     (Inr (),
      example_world\<lparr>w_comments := (w_comments example_world)(0 \<mapsto>
          example_comment\<lparr>c_groups := [7]\<rparr>),
        w_events := [Committed, PushAll ''skyportal/REFRESH_SOURCE'' ''key:ZTF21abc'']\<rparr>)"
  unfolding put_def example_comment_update
  by (simp add: schema_load_def put_attachment_def pop_attachment_bytes_def put_groups_def Group_get_if_accessible_by_def
      put_group_7_def example_env_def example_comment_def example_world_def alice_def)

text \<open>The theorem \<open>visibility_resolution\<close> at the example data.\<close>

theorem visibility_resolution_witness:
  "post example_env alice example_post example_world =
     (Inr 1, snd (post example_env alice example_post example_world)) \<and>
   pd_group_ids example_post = None \<and>
   map_option c_groups (w_comments (snd (post example_env alice example_post example_world)) 1) =
     Some (r_accessible_groups alice) \<and>
   post example_env alice post_with_attachment example_world =
     (Inr 1, snd (post example_env alice post_with_attachment example_world)) \<and>
   pd_group_ids post_with_attachment = Some [7] \<and>
   list_all (group_accessible example_env alice) [7] \<and>
   map_option c_groups
     (w_comments (snd (post example_env alice post_with_attachment example_world)) 1) = Some [7] \<and>
   pd_group_ids post_group_9 = Some [7, 9] \<and>
   \<not> list_all (group_accessible example_env alice) [7, 9] \<and>
   post example_env alice post_group_9 example_world = (Inl AccessDenied, example_world) \<and>
   put example_env alice 0 put_text_only example_world =
     (Inr (), snd (put example_env alice 0 put_text_only example_world)) \<and>
   ud_group_ids put_text_only = None \<and>
   map_option c_groups (w_comments (snd (put example_env alice 0 put_text_only example_world)) 0) =
     map_option c_groups (w_comments example_world 0) \<and>
   put example_env alice 0 put_group_7 example_world =
     (Inr (), snd (put example_env alice 0 put_group_7 example_world)) \<and>
   map_option c_groups (w_comments (snd (put example_env alice 0 put_group_7 example_world)) 0) =
     Some [7] \<and>
   ud_group_ids put_group_9 = Some [7, 9] \<and>
   put example_env alice 0 put_group_9 example_world = (Inl AccessDenied, example_world)"
proof -
  have p1: "post example_env alice example_post example_world =
     (Inr 1, snd (post example_env alice example_post example_world))"
    by (simp add: example_post_result)
  have p2: "post example_env alice post_with_attachment example_world =
     (Inr 1, snd (post example_env alice post_with_attachment example_world))"
    by (simp add: post_with_attachment_result)
  have u1: "put example_env alice 0 put_text_only example_world =
     (Inr (), snd (put example_env alice 0 put_text_only example_world))"
    by (simp add: put_text_only_result)
  have u2: "put example_env alice 0 put_group_7 example_world =
     (Inr (), snd (put example_env alice 0 put_group_7 example_world))"
    by (simp add: put_group_7_result)
  have g: "pd_group_ids example_post = None" "pd_group_ids post_with_attachment = Some [7]"
    "pd_group_ids post_group_9 = Some [7, 9]" "pd_obj_id post_group_9 = Some ''ZTF21abc''"
    "ud_group_ids put_text_only = None" "ud_group_ids put_group_7 = Some [7]"
    "ud_group_ids put_group_9 = Some [7, 9]" "[7 :: nat] \<noteq> []"
    by (simp_all add: example_post_def post_with_attachment_def post_group_9_def
        put_text_only_def put_group_7_def put_group_9_def)
  have n: "\<not> list_all (group_accessible example_env alice) [7, 9]"
    by (simp add: example_env_def alice_def)
  have s: "schema_ok example_env put_group_9"
    "put_bytes_is_none example_comment put_group_9 =
     resulting_name_null example_comment put_group_9"
    by (simp_all add: example_env_def put_bytes_is_none_def put_attachment_def
        pop_attachment_bytes_def resulting_name_null_def put_group_9_def example_comment_def)
  note t = visibility_resolution [where e = example_env and r = alice and w = example_world]
  have 1: "map_option c_groups
      (w_comments (snd (post example_env alice example_post example_world)) 1) =
     Some (r_accessible_groups alice)"
    using t [where data = example_post and comment_id = 1
        and w' = "snd (post example_env alice example_post example_world)"] p1 g(1)
    by blast
  have 2: "list_all (group_accessible example_env alice) [7] \<and>
    map_option c_groups
     (w_comments (snd (post example_env alice post_with_attachment example_world)) 1) = Some [7]"
    using t [where data = post_with_attachment and comment_id = 1 and ids = "[7]"
        and w' = "snd (post example_env alice post_with_attachment example_world)"] p2 g(2,8)
    by blast
  have 3: "post example_env alice post_group_9 example_world = (Inl AccessDenied, example_world)"
    using t [where data = post_group_9 and ids = "[7, 9]" and obj_id = "''ZTF21abc''"] g(3,4) n
    by blast
  have 4: "map_option c_groups
      (w_comments (snd (put example_env alice 0 put_text_only example_world)) 0) =
     map_option c_groups (w_comments example_world 0)"
    using t [where update = put_text_only and comment_id = 0
        and w' = "snd (put example_env alice 0 put_text_only example_world)"] u1 g(5)
    by blast
  have 5: "map_option c_groups
      (w_comments (snd (put example_env alice 0 put_group_7 example_world)) 0) = Some [7]"
    using t [where update = put_group_7 and comment_id = 0 and ids = "[7]"
        and w' = "snd (put example_env alice 0 put_group_7 example_world)"] u2 g(6,8)
    by blast
  have 6: "put example_env alice 0 put_group_9 example_world = (Inl AccessDenied, example_world)"
    using t [where update = put_group_9 and comment_id = 0 and ids = "[7, 9]"
        and c = example_comment] example_comment_update s g(7) n
    by blast
  show ?thesis
    using p1 p2 u1 u2 g n 1 2 3 4 5 6 by (intro conjI) blast+
qed


text \<open>
  C6, as the code has it: the handlers have no check that the groups of a comment are
  not empty. A comment that a create request stores has groups when the requester has
  accessible groups, and a comment with groups keeps groups through an update whose list
  of group ids is absent or not empty.
\<close>

theorem stored_visibility_nonempty:
  "(post e r data w = (Inr comment_id, w') \<and> r_accessible_groups r \<noteq> [] \<longrightarrow>
      (\<exists>c. w_comments w' comment_id = Some c \<and> c_groups c \<noteq> [])) \<and>
   (put e r comment_id update w = (Inr (), w') \<and> w_comments w comment_id = Some old \<and>
    c_groups old \<noteq> [] \<and> ud_group_ids update \<noteq> Some [] \<longrightarrow>
      (\<exists>c. w_comments w' comment_id = Some c \<and> c_groups c \<noteq> []))"
proof (intro conjI impI)
  assume a: "post e r data w = (Inr comment_id, w') \<and> r_accessible_groups r \<noteq> []"
  with post_stored_groups [of e r data w comment_id w']
  show "\<exists>c. w_comments w' comment_id = Some c \<and> c_groups c \<noteq> []"
    by (auto simp: post_groups_Inr split: option.splits if_splits)
next
  assume a: "put e r comment_id update w = (Inr (), w') \<and> w_comments w comment_id = Some old \<and>
    c_groups old \<noteq> [] \<and> ud_group_ids update \<noteq> Some []"
  with put_stored_groups [of e r comment_id update w "()" w']
  show "\<exists>c. w_comments w' comment_id = Some c \<and> c_groups c \<noteq> []"
    by (auto simp: put_groups_Inr split: option.splits)
qed

lemma carol_post_result:
  "post example_env carol example_post example_world =
     (Inr 1,
      example_world\<lparr>w_comments := (w_comments example_world)(1 \<mapsto>
          \<lparr>c_text = ''thanks @bob, @bob and @nobody'', c_obj_id = ''ZTF21abc'',
           c_attachment_bytes = None, c_attachment_name = JNull, c_author = 3,
           c_groups = []\<rparr>),
        w_notifications :=
          [\<lparr>n_user = \<lparr>user_id = 2, username = ''bob''\<rparr>,
            n_text = ''*@carol* mentioned you in a comment on *ZTF21abc*'',
            n_url = ''/source/ZTF21abc''\<rparr>],
        w_next_id := 2,
        w_events := [Committed, FlowPush 2 ''skyportal/FETCH_NOTIFICATIONS'',
                     PushAll ''skyportal/REFRESH_SOURCE'' ''key:ZTF21abc'']\<rparr>)"
  by (simp add: post_def example_post_def example_env_def carol_def example_world_def
      post_groups_def post_attachment_def post_commit_def users_mentioned_def
      mentioned_usernames_thanks mention_notification_def)

text \<open>
  Against C6 as the specification states it: a requester without accessible groups who
  gives no list of group ids creates a comment whose groups are empty.
\<close>

theorem post_empty_visibility_counterexample:
  "r_accessible_groups carol = [] \<and> pd_group_ids example_post = None \<and>
   fst (post example_env carol example_post example_world) = Inr 1 \<and>
   map_option c_groups (w_comments (snd (post example_env carol example_post example_world)) 1) =
     Some []"
  by (simp add: carol_post_result) (simp add: carol_def example_post_def)

text \<open>The theorem \<open>stored_visibility_nonempty\<close> at the example data.\<close>

theorem stored_visibility_nonempty_witness:
  "post example_env alice example_post example_world =
     (Inr 1, snd (post example_env alice example_post example_world)) \<and>
   r_accessible_groups alice \<noteq> [] \<and>
   (\<exists>c. w_comments (snd (post example_env alice example_post example_world)) 1 = Some c \<and>
        c_groups c \<noteq> []) \<and>
   put example_env alice 0 put_text_only example_world =
     (Inr (), snd (put example_env alice 0 put_text_only example_world)) \<and>
   w_comments example_world 0 = Some example_comment \<and> c_groups example_comment \<noteq> [] \<and>
   ud_group_ids put_text_only \<noteq> Some [] \<and>
   (\<exists>c. w_comments (snd (put example_env alice 0 put_text_only example_world)) 0 = Some c \<and>
        c_groups c \<noteq> [])"
proof -
  have p: "post example_env alice example_post example_world =
     (Inr 1, snd (post example_env alice example_post example_world))"
    by (simp add: example_post_result)
  have u: "put example_env alice 0 put_text_only example_world =
     (Inr (), snd (put example_env alice 0 put_text_only example_world))"
    by (simp add: put_text_only_result)
  have h: "r_accessible_groups alice \<noteq> []" "w_comments example_world 0 = Some example_comment"
    "c_groups example_comment \<noteq> []" "ud_group_ids put_text_only \<noteq> Some []"
    by (simp_all add: alice_def example_world_def example_comment_def put_text_only_def)
  have 1: "\<exists>c. w_comments (snd (post example_env alice example_post example_world)) 1 = Some c \<and>
        c_groups c \<noteq> []"
    using stored_visibility_nonempty [where e = example_env and r = alice and data = example_post
        and w = example_world and comment_id = 1
        and w' = "snd (post example_env alice example_post example_world)"] p h(1)
    by blast
  have 2: "\<exists>c. w_comments (snd (put example_env alice 0 put_text_only example_world)) 0 = Some c \<and>
        c_groups c \<noteq> []"
    using stored_visibility_nonempty [where e = example_env and r = alice
        and update = put_text_only and w = example_world and comment_id = 0
        and old = example_comment
        and w' = "snd (put example_env alice 0 put_text_only example_world)"] u h(2,3,4)
    by blast
  show ?thesis
    using p u h 1 2 by (intro conjI)
qed

section \<open>Reading, deleting and fetching the attachment\<close>






lemma attachment_get_absent:
  assumes "w_comments w comment_id = Some c" and "comment_accessible e r Read c"
    and "c_attachment_bytes c = None"
  shows "fst (attachment_get e r comment_id download_arg w) \<noteq> Inr resp"
    and "commit_ok e \<Longrightarrow>
         strtobool (lower (case download_arg of None \<Rightarrow> ''True'' | Some a \<Rightarrow> a)) = Inr download \<Longrightarrow>
         fst (attachment_get e r comment_id download_arg w) = Inl (Unhandled TypeError)"
proof -
  have g: "Comment_get_if_accessible_by e r Read comment_id w = Inr c"
    using assms(1,2) by (simp add: Comment_get_Inr)
  have d: "b64decode (c_attachment_bytes c) = Inl (Unhandled TypeError)"
    using assms(3) by (simp add: b64decode_def)
  show "fst (attachment_get e r comment_id download_arg w) \<noteq> Inr resp"
    by (simp add: attachment_get_def g d Let_def split: sum.splits)
  show "fst (attachment_get e r comment_id download_arg w) = Inl (Unhandled TypeError)"
    if "commit_ok e"
      "strtobool (lower (case download_arg of None \<Rightarrow> ''True'' | Some a \<Rightarrow> a)) = Inr download"
    using that by (simp add: attachment_get_def g d Let_def)
qed

text \<open>
  C10: the attachment of an accessible comment without attachment bytes cannot be
  fetched: the request never returns a response, and when its \<open>download\<close> argument is
  valid, in download mode as in inline mode, and the commit succeeds, it fails with the
  \<open>TypeError\<close> that \<open>base64.b64decode(None)\<close> raises, which no code catches.
\<close>

theorem attachment_get_without_attachment:
  "(w_comments w comment_id = Some c \<and> comment_accessible e r Read c \<and>
    c_attachment_bytes c = None \<longrightarrow>
      (\<forall>resp. fst (attachment_get e r comment_id download_arg w) \<noteq> Inr resp)) \<and>
   (w_comments w comment_id = Some c \<and> comment_accessible e r Read c \<and>
    c_attachment_bytes c = None \<and> commit_ok e \<and>
    strtobool (lower (case download_arg of None \<Rightarrow> ''True'' | Some a \<Rightarrow> a)) = Inr download \<longrightarrow>
      fst (attachment_get e r comment_id download_arg w) = Inl (Unhandled TypeError))"
  using attachment_get_absent by blast

lemma strtobool_examples:
  "strtobool (lower ''True'') = Inr True" "strtobool (lower ''false'') = Inr False"
  by code_simp+

text \<open>The theorem \<open>attachment_get_without_attachment\<close> at the example data.\<close>

theorem attachment_get_without_attachment_witness:
  "w_comments example_world 0 = Some example_comment \<and>
   comment_accessible example_env alice Read example_comment \<and>
   c_attachment_bytes example_comment = None \<and> commit_ok example_env \<and>
   strtobool (lower (case None of None \<Rightarrow> ''True'' | Some a \<Rightarrow> a)) = Inr True \<and>
   strtobool (lower (case Some ''false'' of None \<Rightarrow> ''True'' | Some a \<Rightarrow> a)) = Inr False \<and>
   (\<forall>resp. fst (attachment_get example_env alice 0 None example_world) \<noteq> Inr resp) \<and>
   fst (attachment_get example_env alice 0 None example_world) = Inl (Unhandled TypeError) \<and>
   fst (attachment_get example_env alice 0 (Some ''false'') example_world) =
     Inl (Unhandled TypeError)"
proof -
  have h: "w_comments example_world 0 = Some example_comment"
    "comment_accessible example_env alice Read example_comment"
    "c_attachment_bytes example_comment = None" "commit_ok example_env"
    by (simp_all add: example_world_def example_env_def alice_def example_comment_def)
  have d: "strtobool (lower (case None of None \<Rightarrow> ''True'' | Some a \<Rightarrow> a)) = Inr True"
    "strtobool (lower (case Some ''false'' of None \<Rightarrow> ''True'' | Some a \<Rightarrow> a)) = Inr False"
    by (simp_all add: strtobool_examples)
  note t = attachment_get_without_attachment [where w = example_world and comment_id = 0
      and c = example_comment and e = example_env and r = alice]
  have 1: "\<forall>resp. fst (attachment_get example_env alice 0 None example_world) \<noteq> Inr resp"
    using t [where download_arg = None] h by blast
  have 2: "fst (attachment_get example_env alice 0 None example_world) = Inl (Unhandled TypeError)"
    using t [where download_arg = None and download = True] h d(1) by blast
  have 3: "fst (attachment_get example_env alice 0 (Some ''false'') example_world) =
     Inl (Unhandled TypeError)"
    using t [where download_arg = "Some ''false''" and download = False] h d(2) by blast
  show ?thesis
    using h d 1 2 3 by (intro conjI)
qed


lemma b64encode_no_comma: "CHR '','' \<notin> set (b64encode B)"
  using b64encode_chars [of B] b64_alphabet_facts(4) by auto

lemma b64encode_ascii: "list_all (\<lambda>c. (of_char c :: nat) < 128) (b64encode B)"
proof -
  have "\<forall>c \<in> set b64_alphabet \<union> {CHR ''=''}. (of_char c :: nat) < 128"
    using b64_alphabet_facts(5) by (simp add: list_all_iff)
  then show ?thesis
    using b64encode_chars [of B] by (auto simp: list_all_iff)
qed

lemma b64decode_b64encode: "b64decode (Some (b64encode B)) = Inr B"
  by (simp add: b64decode_def b64_roundtrip)

lemma stored_encoding:
  assumes "body = b64encode B \<or> body = pre @ ''base64,'' @ b64encode B"
  shows "str_encode (after_base64 body) = b64encode B"
proof -
  have n: "\<not> contains (b64encode B) ''base64,''"
    by (rule no_comma_no_marker) (rule b64encode_no_comma)
  have "after_base64 body = b64encode B"
    using assms after_base64_absent [OF n] after_base64_marker [OF n] by auto
  then show ?thesis
    by (simp add: str_encode_ascii b64encode_ascii)
qed

lemma attachment_get_download:
  assumes "w_comments w comment_id = Some c" and "comment_accessible e r Read c"
    and "commit_ok e"
    and "strtobool (lower (case download_arg of None \<Rightarrow> ''True'' | Some a \<Rightarrow> a)) = Inr True"
    and "b64decode (c_attachment_bytes c) = Inr raw"
  shows "fst (attachment_get e r comment_id download_arg w) = Inr (Download (c_attachment_name c) raw)"
proof -
  have g: "Comment_get_if_accessible_by e r Read comment_id w = Inr c"
    using assms(1,2) by (simp add: Comment_get_Inr)
  show ?thesis
    using assms(3,4,5) by (simp add: attachment_get_def g Let_def)
qed

text \<open>
  C9: for every byte string \<open>B\<close>, the empty one included: when a create request whose
  attachment's body is the base64 encoding of \<open>B\<close>, alone or behind a prefix that ends
  in \<open>base64,\<close>, has succeeded, fetching the attachment of the new comment in download
  mode, by a requester who may read the comment, yields the attachment's name and
  exactly \<open>B\<close>.
\<close>

theorem attachment_round_trip:
  "post e r data w = (Inr comment_id, w') \<and> pd_attachment data = Some (JObj items) \<and>
   map_of items ''body'' = Some (JStr body) \<and> map_of items ''name'' = Some name \<and>
   (body = b64encode B \<or> body = pre @ ''base64,'' @ b64encode B) \<and>
   w_comments w' comment_id = Some c \<and> comment_accessible e reader Read c \<and>
   strtobool (lower (case download_arg of None \<Rightarrow> ''True'' | Some a \<Rightarrow> a)) = Inr True \<longrightarrow>
     fst (attachment_get e reader comment_id download_arg w') = Inr (Download name B)"
proof
  assume a: "post e r data w = (Inr comment_id, w') \<and> pd_attachment data = Some (JObj items) \<and>
   map_of items ''body'' = Some (JStr body) \<and> map_of items ''name'' = Some name \<and>
   (body = b64encode B \<or> body = pre @ ''base64,'' @ b64encode B) \<and>
   w_comments w' comment_id = Some c \<and> comment_accessible e reader Read c \<and>
   strtobool (lower (case download_arg of None \<Rightarrow> ''True'' | Some a \<Rightarrow> a)) = Inr True"
  then have p: "post_attachment (pd_attachment data) =
      Inr (Some (str_encode (after_base64 body)), name)"
    by (simp add: post_attachment_wellformed)
  from a have s: "str_encode (after_base64 body) = b64encode B"
    by (intro stored_encoding) blast
  from post_stores_comment [of e r data w comment_id w'] a p s
  have c: "commit_ok e" "c_attachment_bytes c = Some (b64encode B)" "c_attachment_name c = name"
    by auto
  have "fst (attachment_get e reader comment_id download_arg w') =
      Inr (Download (c_attachment_name c) B)"
    using a c(1) by (intro attachment_get_download) (simp_all add: c(2) b64decode_b64encode)
  then show "fst (attachment_get e reader comment_id download_arg w') = Inr (Download name B)"
    by (simp add: c(3))
qed

lemma b64encode_hello: "b64encode ''hello'' = ''aGVsbG8=''"
  by code_simp

lemma post_with_empty_attachment_result:
  "post example_env alice post_with_empty_attachment example_world =
     (Inr 1,
      example_world\<lparr>w_comments := (w_comments example_world)(1 \<mapsto>
          \<lparr>c_text = ''see the file'', c_obj_id = ''ZTF21abc'',
           c_attachment_bytes = Some [], c_attachment_name = JStr ''empty.txt'',
           c_author = 1, c_groups = [7]\<rparr>),
        w_notifications := [],
        w_next_id := 2,
        w_events := [Committed, PushAll ''skyportal/REFRESH_SOURCE'' ''key:ZTF21abc'']\<rparr>)"
  by (simp add: post_def post_with_empty_attachment_def example_env_def alice_def
      example_world_def post_groups_def Group_get_if_accessible_by_def post_attachment_def
      post_commit_def users_mentioned_def mentioned_usernames_file after_base64_def
      str_encode_def)

text \<open>The theorem \<open>attachment_round_trip\<close> at the example data.\<close>

theorem attachment_round_trip_witness:
  "post example_env alice post_with_attachment example_world =
     (Inr 1, snd (post example_env alice post_with_attachment example_world)) \<and>
   ''data:text/plain;base64,aGVsbG8='' = ''data:text/plain;'' @ ''base64,'' @ b64encode ''hello'' \<and>
   fst (attachment_get example_env alice 1 None
          (snd (post example_env alice post_with_attachment example_world))) =
     Inr (Download (JStr ''hello.txt'') ''hello'') \<and>
   post example_env alice post_with_empty_attachment example_world =
     (Inr 1, snd (post example_env alice post_with_empty_attachment example_world)) \<and>
   fst (attachment_get example_env alice 1 (Some ''TRUE'')
          (snd (post example_env alice post_with_empty_attachment example_world))) =
     Inr (Download (JStr ''empty.txt'') [])"
proof -
  let ?c1 = "\<lparr>c_text = ''see the file'', c_obj_id = ''ZTF21abc'',
           c_attachment_bytes = Some ''aGVsbG8='', c_attachment_name = JStr ''hello.txt'',
           c_author = 1, c_groups = [7]\<rparr>"
  let ?c2 = "\<lparr>c_text = ''see the file'', c_obj_id = ''ZTF21abc'',
           c_attachment_bytes = Some [], c_attachment_name = JStr ''empty.txt'',
           c_author = 1, c_groups = [7]\<rparr>"
  have p1: "post example_env alice post_with_attachment example_world =
     (Inr 1, snd (post example_env alice post_with_attachment example_world))"
    by (simp add: post_with_attachment_result)
  have p2: "post example_env alice post_with_empty_attachment example_world =
     (Inr 1, snd (post example_env alice post_with_empty_attachment example_world))"
    by (simp add: post_with_empty_attachment_result)
  have f1: "pd_attachment post_with_attachment =
      Some (JObj [(''body'', JStr ''data:text/plain;base64,aGVsbG8=''), (''name'', JStr ''hello.txt'')])"
    "map_of [(''body'', JStr ''data:text/plain;base64,aGVsbG8=''), (''name'', JStr ''hello.txt'')]
       ''body'' = Some (JStr ''data:text/plain;base64,aGVsbG8='')"
    "map_of [(''body'', JStr ''data:text/plain;base64,aGVsbG8=''), (''name'', JStr ''hello.txt'')]
       ''name'' = Some (JStr ''hello.txt'')"
    by (simp_all add: post_with_attachment_def example_attachment_def)
  have f2: "pd_attachment post_with_empty_attachment =
      Some (JObj [(''body'', JStr []), (''name'', JStr ''empty.txt'')])"
    "map_of [(''body'', JStr []), (''name'', JStr ''empty.txt'')] ''body'' = Some (JStr [])"
    "map_of [(''body'', JStr []), (''name'', JStr ''empty.txt'')] ''name'' = Some (JStr ''empty.txt'')"
    by (simp_all add: post_with_empty_attachment_def)
  have b1: "''data:text/plain;base64,aGVsbG8='' = ''data:text/plain;'' @ ''base64,'' @ b64encode ''hello''"
    unfolding b64encode_hello by simp
  have b2: "[] = b64encode []"
    by simp
  have c1: "w_comments (snd (post example_env alice post_with_attachment example_world)) 1 = Some ?c1"
    "comment_accessible example_env alice Read ?c1"
    by (simp add: post_with_attachment_result) (simp add: example_env_def alice_def)
  have c2: "w_comments (snd (post example_env alice post_with_empty_attachment example_world)) 1 = Some ?c2"
    "comment_accessible example_env alice Read ?c2"
    by (simp add: post_with_empty_attachment_result) (simp add: example_env_def alice_def)
  have d: "strtobool (lower (case None of None \<Rightarrow> ''True'' | Some a \<Rightarrow> a)) = Inr True"
    "strtobool (lower (case Some ''TRUE'' of None \<Rightarrow> ''True'' | Some a \<Rightarrow> a)) = Inr True"
    by code_simp+
  have 1: "fst (attachment_get example_env alice 1 None
          (snd (post example_env alice post_with_attachment example_world))) =
     Inr (Download (JStr ''hello.txt'') ''hello'')"
    using attachment_round_trip [where e = example_env and r = alice and reader = alice
        and data = post_with_attachment and w = example_world and comment_id = 1
        and w' = "snd (post example_env alice post_with_attachment example_world)"
        and items = "[(''body'', JStr ''data:text/plain;base64,aGVsbG8=''), (''name'', JStr ''hello.txt'')]"
        and body = "''data:text/plain;base64,aGVsbG8=''" and name = "JStr ''hello.txt''"
        and B = "''hello''" and pre = "''data:text/plain;''" and c = ?c1 and download_arg = None]
      p1 f1 b1 c1 d(1)
    by blast
  have 2: "fst (attachment_get example_env alice 1 (Some ''TRUE'')
          (snd (post example_env alice post_with_empty_attachment example_world))) =
     Inr (Download (JStr ''empty.txt'') [])"
    using attachment_round_trip [where e = example_env and r = alice and reader = alice
        and data = post_with_empty_attachment and w = example_world and comment_id = 1
        and w' = "snd (post example_env alice post_with_empty_attachment example_world)"
        and items = "[(''body'', JStr []), (''name'', JStr ''empty.txt'')]"
        and body = "[]" and name = "JStr ''empty.txt''"
        and B = "[]" and c = ?c2 and download_arg = "Some ''TRUE''"]
      p2 f2 b2 c2 d(2)
    by blast
  show ?thesis
    using p1 b1 1 p2 2 by (intro conjI)
qed

end
